theory Spec2Isabelle
  imports Main "HOL-Library.Sublist" "HOL-Library.AList"
begin

section \<open>Python strings\<close>

text \<open>
  A Python \<open>str\<close> is modelled as a \<^typ>\<open>string\<close>: a list of code points below 256.
  On that range the string methods used by \<open>client.py\<close> behave as defined here.
\<close>

definition isspace :: "char \<Rightarrow> bool" where
  \<comment> \<open>\<open>str.isspace\<close> on one code point: TAB..CR, FS..US, space, NEL, NBSP.\<close>
  "isspace c \<longleftrightarrow> c \<in> set [CHR 0x09, CHR 0x0A, CHR 0x0B, CHR 0x0C, CHR 0x0D,
     CHR 0x1C, CHR 0x1D, CHR 0x1E, CHR 0x1F, CHR 0x20, CHR 0x85, CHR 0xA0]"

definition isdigit :: "char \<Rightarrow> bool" where
  \<comment> \<open>the regex class \<open>\d\<close>\<close>
  "isdigit c \<longleftrightarrow> c \<in> set ''0123456789''"

definition isupper_AZ :: "char \<Rightarrow> bool" where
  \<comment> \<open>the regex class \<open>[A-Z]\<close>\<close>
  "isupper_AZ c \<longleftrightarrow> c \<in> set ''ABCDEFGHIJKLMNOPQRSTUVWXYZ''"

definition upper_chars :: "char list" where
  "upper_chars = ''ABCDEFGHIJKLMNOPQRSTUVWXYZ'' @
     [CHR 0xC0, CHR 0xC1, CHR 0xC2, CHR 0xC3, CHR 0xC4, CHR 0xC5, CHR 0xC6, CHR 0xC7,
      CHR 0xC8, CHR 0xC9, CHR 0xCA, CHR 0xCB, CHR 0xCC, CHR 0xCD, CHR 0xCE, CHR 0xCF,
      CHR 0xD0, CHR 0xD1, CHR 0xD2, CHR 0xD3, CHR 0xD4, CHR 0xD5, CHR 0xD6, CHR 0xD8,
      CHR 0xD9, CHR 0xDA, CHR 0xDB, CHR 0xDC, CHR 0xDD, CHR 0xDE]"

definition lower_chars :: "char list" where
  "lower_chars = ''abcdefghijklmnopqrstuvwxyz'' @
     [CHR 0xE0, CHR 0xE1, CHR 0xE2, CHR 0xE3, CHR 0xE4, CHR 0xE5, CHR 0xE6, CHR 0xE7,
      CHR 0xE8, CHR 0xE9, CHR 0xEA, CHR 0xEB, CHR 0xEC, CHR 0xED, CHR 0xEE, CHR 0xEF,
      CHR 0xF0, CHR 0xF1, CHR 0xF2, CHR 0xF3, CHR 0xF4, CHR 0xF5, CHR 0xF6, CHR 0xF8,
      CHR 0xF9, CHR 0xFA, CHR 0xFB, CHR 0xFC, CHR 0xFD, CHR 0xFE]"

definition lower_chr :: "char \<Rightarrow> char" where
  \<comment> \<open>\<open>str.lower\<close> on one code point below 256\<close>
  "lower_chr c = (case map_of (zip upper_chars lower_chars) c of None \<Rightarrow> c | Some l \<Rightarrow> l)"

definition lower :: "string \<Rightarrow> string" where
  "lower s = map lower_chr s"

definition lstrip :: "string \<Rightarrow> string" where
  "lstrip s = dropWhile isspace s"

definition strip :: "string \<Rightarrow> string" where
  \<comment> \<open>\<open>s.strip()\<close>\<close>
  "strip s = rev (dropWhile isspace (rev (lstrip s)))"

definition rstrip_chr :: "char \<Rightarrow> string \<Rightarrow> string" where
  \<comment> \<open>\<open>s.rstrip(c)\<close> for a one-character argument\<close>
  "rstrip_chr c s = rev (dropWhile (\<lambda>x. x = c) (rev s))"

function replace :: "string \<Rightarrow> string \<Rightarrow> string \<Rightarrow> string" where
  \<comment> \<open>\<open>s.replace(old, new)\<close>: leftmost, non-overlapping occurrences\<close>
  "replace old new s =
     (if old = [] then new @ concat (map (\<lambda>c. c # new) s)
      else if s = [] then []
      else if prefix old s then new @ replace old new (drop (length old) s)
      else hd s # replace old new (tl s))"
  by pat_completeness auto
termination
  by (relation "measure (\<lambda>(old, new, s). length s)") auto

declare replace.simps [simp del]

fun split_chr :: "char \<Rightarrow> string \<Rightarrow> string list" where
  \<comment> \<open>\<open>s.split(c)\<close> for a one-character separator; the result is never empty\<close>
  "split_chr c [] = [[]]"
| "split_chr c (x # xs) =
     (if x = c then [] # split_chr c xs
      else (case split_chr c xs of [] \<Rightarrow> [[x]] | p # ps \<Rightarrow> (x # p) # ps))"

fun join :: "string \<Rightarrow> string list \<Rightarrow> string" where
  \<comment> \<open>\<open>sep.join(xs)\<close>\<close>
  "join sep [] = []"
| "join sep [x] = x"
| "join sep (x # y # ys) = x @ sep @ join sep (y # ys)"

function str_nat :: "nat \<Rightarrow> string" where
  \<comment> \<open>\<open>str(i)\<close> for a non-negative integer, as an f-string formats it\<close>
  "str_nat n =
     (if n < 10 then [''0123456789'' ! n]
      else str_nat (n div 10) @ [''0123456789'' ! (n mod 10)])"
  by pat_completeness auto
termination
  by (relation "measure id") auto

declare str_nat.simps [simp del]

subsection \<open>The regular expressions of the client\<close>

definition digit_on_line :: "string \<Rightarrow> bool" where
  \<comment> \<open>\<open>.*\d\<close> matched at the start of \<open>s\<close>: a digit before any newline\<close>
  "digit_on_line s =
     (case dropWhile (\<lambda>c. \<not> isdigit c \<and> c \<noteq> CHR 0x0A) s of
        [] \<Rightarrow> False | d # _ \<Rightarrow> isdigit d)"

fun search_case_pattern :: "string \<Rightarrow> bool" where
  \<comment> \<open>\<open>re.search(r'[A-Z]+.*\d+', s)\<close> finds a match: an upper-case ASCII letter,
      later on the same line a digit\<close>
  "search_case_pattern [] = False"
| "search_case_pattern (c # cs) =
     ((isupper_AZ c \<and> digit_on_line cs) \<or> search_case_pattern cs)"

fun search_cid :: "string \<Rightarrow> string option" where
  \<comment> \<open>group 1 of \<open>re.search(r'var cid = (\d+)', s)\<close>, \<open>None\<close> when there is no match\<close>
  "search_cid [] = None"
| "search_cid (c # cs) =
     (let s = c # cs; rest = drop 10 s
      in if prefix ''var cid = '' s \<and> takeWhile isdigit rest \<noteq> []
         then Some (takeWhile isdigit rest)
         else search_cid cs)"

fun search_quoted :: "string \<Rightarrow> string \<Rightarrow> string option" where
  \<comment> \<open>group 1 of \<open>re.search(p + "'([^']+)'", s)\<close> for a literal prefix \<open>p\<close>\<close>
  "search_quoted p [] = None"
| "search_quoted p (c # cs) =
     (let s = c # cs; rest = drop (length p + 1) s; grp = takeWhile (\<lambda>x. x \<noteq> CHR 0x27) rest
      in if prefix (p @ [CHR 0x27]) s \<and> grp \<noteq> [] \<and> dropWhile (\<lambda>x. x \<noteq> CHR 0x27) rest \<noteq> []
         then Some grp
         else search_quoted p cs)"

definition search_caseDigest :: "string \<Rightarrow> string option" where
  \<comment> \<open>\<open>re.search(r"var caseDigest = '([^']+)'", html)\<close>\<close>
  "search_caseDigest s = search_quoted ''var caseDigest = '' s"

definition search_caseNumber :: "string \<Rightarrow> string option" where
  \<comment> \<open>\<open>re.search(r"var caseNumber = '([^']+)'", script.string)\<close>\<close>
  "search_caseNumber s = search_quoted ''var caseNumber = '' s"

subsection \<open>What the regular expressions match\<close>

text \<open>
  The meaning of the two patterns of the case number, stated on positions of the string;
  the searches above are proved to compute it.
\<close>

definition case_pattern_matches :: "string \<Rightarrow> bool" where
  \<comment> \<open>\<open>[A-Z]+.*\d+\<close> matches somewhere: an upper-case ASCII letter at \<open>i\<close>, a digit at a
      later \<open>j\<close>, and no newline between them\<close>
  "case_pattern_matches s \<longleftrightarrow>
     (\<exists>i j. i < j \<and> j < length s \<and> isupper_AZ (s ! i) \<and> isdigit (s ! j) \<and>
            (\<forall>k. i < k \<and> k < j \<longrightarrow> s ! k \<noteq> CHR 0x0A))"

definition quoted_at :: "string \<Rightarrow> string \<Rightarrow> string \<Rightarrow> string \<Rightarrow> bool" where
  \<comment> \<open>\<open>p'([^']+)'\<close> matches \<open>s\<close> right after \<open>pre\<close> with group 1 equal to \<open>g\<close>\<close>
  "quoted_at p pre g s \<longleftrightarrow>
     g \<noteq> [] \<and> CHR 0x27 \<notin> set g \<and>
     (\<exists>post. s = pre @ p @ [CHR 0x27] @ g @ [CHR 0x27] @ post)"

definition leftmost_quoted :: "string \<Rightarrow> string \<Rightarrow> string \<Rightarrow> bool" where
  \<comment> \<open>\<open>g\<close> is group 1 of the leftmost match of \<open>p'([^']+)'\<close> in \<open>s\<close>\<close>
  "leftmost_quoted p g s \<longleftrightarrow>
     (\<exists>pre. quoted_at p pre g s \<and>
        (\<forall>pre' g'. quoted_at p pre' g' s \<longrightarrow> length pre \<le> length pre'))"

section \<open>BeautifulSoup documents\<close>

text \<open>
  A parsed document is a tree of tags and text nodes. An attribute value is a string, or
  a list of strings for the multi-valued attributes (\<open>class\<close>, and \<open>rel\<close> on links).
  The parser itself belongs to the library and stays a parameter of the client.
  Comments and doctypes are left out of the tree. The strings inside a \<open>script\<close>,
  \<open>style\<close> or \<open>template\<close> element have a class of their own in the library, and the
  text of a tag around such an element leaves them out.
\<close>

datatype attr = AStr string | AList "string list"

datatype node = Tag string "(string \<times> attr) list" "node list" | NavigableString string

fun descendants :: "node \<Rightarrow> node list" where
  \<comment> \<open>\<open>tag.descendants\<close>, in document order\<close>
  "descendants (NavigableString s) = []"
| "descendants (Tag n as cs) = concat (map (\<lambda>c. c # descendants c) cs)"

fun tag_name :: "node \<Rightarrow> string option" where
  "tag_name (Tag n as cs) = Some n"
| "tag_name (NavigableString s) = None"

fun get_attr :: "node \<Rightarrow> string \<Rightarrow> attr option" where
  \<comment> \<open>\<open>tag.get(key)\<close>\<close>
  "get_attr (Tag n as cs) k = map_of as k"
| "get_attr (NavigableString s) k = None"

fun attr_truthy :: "attr option \<Rightarrow> bool" where
  \<comment> \<open>Python truth of what \<open>tag.get\<close> returns\<close>
  "attr_truthy None = False"
| "attr_truthy (Some (AStr s)) = (s \<noteq> [])"
| "attr_truthy (Some (AList xs)) = (xs \<noteq> [])"

fun truthy_head :: "attr option \<Rightarrow> string option" where
  \<comment> \<open>for a truthy \<open>x = tag.get(key)\<close>, the value \<open>x[0] if isinstance(x, list) else x\<close>;
      \<open>None\<close> for a falsy one\<close>
  "truthy_head None = None"
| "truthy_head (Some (AStr s)) = (if s = [] then None else Some s)"
| "truthy_head (Some (AList [])) = None"
| "truthy_head (Some (AList (x # xs))) = Some x"

fun attr_matches :: "attr option \<Rightarrow> string \<Rightarrow> bool" where
  \<comment> \<open>how a search matches an attribute against a non-empty string: a string by
      equality, a list if one item or the space-joined list is equal\<close>
  "attr_matches None v = False"
| "attr_matches (Some (AStr s)) v = (s = v)"
| "attr_matches (Some (AList xs)) v = (v \<in> set xs \<or> join '' '' xs = v)"

definition matches :: "string list \<Rightarrow> (string \<times> string) list \<Rightarrow> node \<Rightarrow> bool" where
  \<comment> \<open>a tag whose name is one of \<open>names\<close> and whose attributes match all of \<open>attrs\<close>\<close>
  "matches names attrs nd =
     (case tag_name nd of
        None \<Rightarrow> False
      | Some n \<Rightarrow> n \<in> set names \<and> list_all (\<lambda>(k, v). attr_matches (get_attr nd k) v) attrs)"

definition find_all :: "node \<Rightarrow> string list \<Rightarrow> (string \<times> string) list \<Rightarrow> node list" where
  \<comment> \<open>\<open>tag.find_all(names, attrs)\<close>\<close>
  "find_all nd names attrs = filter (matches names attrs) (descendants nd)"

definition find_tag :: "node \<Rightarrow> string \<Rightarrow> (string \<times> string) list \<Rightarrow> node option" where
  \<comment> \<open>\<open>tag.find(name, attrs)\<close>: the first match or \<open>None\<close>; a tag is always truthy\<close>
  "find_tag nd name attrs = List.find (matches [name] attrs) (descendants nd)"

definition special_containers :: "string list" where
  \<comment> \<open>the tags whose strings are \<open>Script\<close>, \<open>Stylesheet\<close> and \<open>TemplateString\<close>\<close>
  "special_containers = [''script'', ''style'', ''template'']"

fun strings :: "node \<Rightarrow> string list" where
  \<comment> \<open>the plain strings at or below a node, in document order\<close>
  "strings (NavigableString s) = [s]"
| "strings (Tag n as cs) =
     (if n \<in> set special_containers then [] else concat (map strings cs))"

fun own_strings :: "node \<Rightarrow> string list" where
  \<comment> \<open>the strings that count for the text of a node: those of its own class\<close>
  "own_strings (NavigableString s) = [s]"
| "own_strings (Tag n as cs) = concat (map strings cs)"

definition get_text :: "node \<Rightarrow> string" where
  \<comment> \<open>\<open>tag.get_text(strip=True)\<close>: every string that counts stripped, the empty ones
      skipped, the rest concatenated\<close>
  "get_text nd = concat (filter (\<lambda>s. s \<noteq> []) (map strip (own_strings nd)))"

fun node_string :: "node \<Rightarrow> string option" where
  \<comment> \<open>\<open>tag.string\<close>: the text of a tag whose only child is a text node, or is a tag
      that has such a string\<close>
  "node_string (NavigableString s) = Some s"
| "node_string (Tag n as [c]) = node_string c"
| "node_string (Tag n as cs) = None"

section \<open>The session and its requests\<close>

text \<open>
  The address of a request is either a string or the two arguments of the library's
  \<open>urljoin\<close>. A request carries its query parameters or its form data; the form values
  may be Python's \<open>None\<close>. Request headers are not modelled.
\<close>

datatype target = Url string | UrlJoin string string

datatype request =
    GET target "(string \<times> string) list"
  | POST target "(string \<times> string option) list"

record response =
  resp_ok :: bool  \<comment> \<open>no transport failure, and \<open>raise_for_status()\<close> passes\<close>
  resp_text :: string
  resp_url :: string

text \<open>
  The world outside the client: the network answers a request from the requests sent so
  far and the cookie jar, and returns the jar as the library leaves it; the HTML parser;
  the clock, read as the formatted string \<open>strftime('%I:%M:%S %p')\<close>.
\<close>

record world =
  transport :: "request list \<Rightarrow> request \<Rightarrow> (string \<times> string) list
                  \<Rightarrow> response \<times> (string \<times> string) list"
  BeautifulSoup :: "string \<Rightarrow> node"
  strftime_now :: "request list \<Rightarrow> string"

record client =
  base_url :: string
  cookies :: "(string \<times> string) list"  \<comment> \<open>\<open>self.session.cookies.items()\<close>\<close>
  csrf_token_body :: "string option"
  csrf_cookie_name :: "string option"
  requests_sent :: "request list"  \<comment> \<open>history of the session's requests\<close>

datatype error = HTTPError | ValueError string

abbreviation MissingCsrfCookie :: error where
  "MissingCsrfCookie \<equiv> ValueError ''Could not find CSRF token cookie in response''"

abbreviation MissingCsrfToken :: error where
  "MissingCsrfToken \<equiv> ValueError ''Could not find CSRF token in HTML''"

definition session_request :: "world \<Rightarrow> request \<Rightarrow> client \<Rightarrow> response \<times> client" where
  \<comment> \<open>\<open>self.session.get(...)\<close> and \<open>self.session.post(...)\<close>\<close>
  "session_request w rq c =
     (case transport w (requests_sent c) rq (cookies c) of
        (resp, jar) \<Rightarrow> (resp, c\<lparr>cookies := jar, requests_sent := requests_sent c @ [rq]\<rparr>))"

fun truthy :: "string option \<Rightarrow> bool" where
  \<comment> \<open>Python truth of an optional string\<close>
  "truthy None = False"
| "truthy (Some s) = (s \<noteq> [])"

definition search_page_request :: "client \<Rightarrow> request" where
  "search_page_request c = GET (UrlJoin (base_url c) ''/BenchmarkWeb/Home.aspx/Search'') []"

definition is_csrf_cookie :: "string \<times> string \<Rightarrow> bool" where
  "is_csrf_cookie kv = prefix ''__RequestVerificationToken_'' (fst kv)"

definition scan_cookies :: "client \<Rightarrow> client" where
  \<comment> \<open>the loop over the jar: the first cookie with the prefix names the CSRF cookie\<close>
  "scan_cookies c =
     (case List.find is_csrf_cookie (cookies c) of
        None \<Rightarrow> c
      | Some kv \<Rightarrow> c\<lparr>csrf_cookie_name := Some (fst kv)\<rparr>)"

definition csrf_input :: "world \<Rightarrow> response \<Rightarrow> node option" where
  "csrf_input w resp =
     find_tag (BeautifulSoup w (resp_text resp)) ''input''
       [(''name'', ''__RequestVerificationToken'')]"

definition get_search_page :: "world \<Rightarrow> client \<Rightarrow> (error + unit) \<times> client" where
  \<comment> \<open>\<open>_get_search_page\<close>; an exception leaves the fields written before it\<close>
  "get_search_page w c =
     (case session_request w (search_page_request c) c of (resp, c1) \<Rightarrow>
        if \<not> resp_ok resp then (Inl HTTPError, c1)
        else let c2 = scan_cookies c1 in
          if \<not> truthy (csrf_cookie_name c2) then (Inl MissingCsrfCookie, c2)
          else (case csrf_input w resp of
                  None \<Rightarrow> (Inl MissingCsrfToken, c2)
                | Some inp \<Rightarrow>
                    (case truthy_head (get_attr inp ''value'') of
                       None \<Rightarrow> (Inl MissingCsrfToken, c2)
                     | Some v \<Rightarrow> (Inr (), c2\<lparr>csrf_token_body := Some v\<rparr>))))"

subsection \<open>Search\<close>

record search_args =
  search_term :: string
  search_type :: string
  court_types :: "string list option"
  party_types :: "string list option"
  divisions :: "string list option"
  opened_from :: "string option"
  opened_to :: "string option"
  closed_from :: "string option"
  closed_to :: "string option"
  kwargs :: "(string \<times> string option) list"

definition or_empty :: "string option \<Rightarrow> string" where
  \<comment> \<open>\<open>x or ''\<close>\<close>
  "or_empty x = (case x of None \<Rightarrow> [] | Some s \<Rightarrow> s)"

definition or_default :: "string list option \<Rightarrow> string list \<Rightarrow> string list" where
  \<comment> \<open>\<open>if x is None: x = d\<close>\<close>
  "or_default x d = (case x of None \<Rightarrow> d | Some xs \<Rightarrow> xs)"

definition dict_update :: "(string \<times> 'v) list \<Rightarrow> (string \<times> 'v) list \<Rightarrow> (string \<times> 'v) list" where
  \<comment> \<open>\<open>d.update(e)\<close> on insertion-ordered dictionaries\<close>
  "dict_update d e = foldl (\<lambda>acc kv. AList.update (fst kv) (snd kv) acc) d e"

definition form_data :: "string option \<Rightarrow> search_args \<Rightarrow> (string \<times> string option) list" where
  "form_data token a =
     dict_update
       [(''__RequestVerificationToken'', token),
        (''type'', Some (search_type a)),
        (''search'', Some (search_term a)),
        (''openedFrom'', Some (or_empty (opened_from a))),
        (''openedTo'', Some (or_empty (opened_to a))),
        (''closedFrom'', Some (or_empty (closed_from a))),
        (''closedTo'', Some (or_empty (closed_to a))),
        (''courtTypes'', Some (join '','' (or_default (court_types a)
            [''22'', ''2'', ''20'', ''21'', ''7'', ''10'']))),
        (''caseTypes'', Some []),
        (''partyTypes'', Some (join '','' (or_default (party_types a)
            [''1'', ''2'', ''3'', ''4'', ''5'']))),
        (''divisions'', Some (join '','' (or_default (divisions a) [''1'']))),
        (''statutes'', Some []),
        (''partyBirthYear'', Some []),
        (''partyDOB'', Some []),
        (''caseStatus'', Some []),
        (''propertyAddress'', Some []),
        (''propertyCity'', Some []),
        (''propertyZip'', Some []),
        (''propertySubDivision'', Some []),
        (''lawFirm'', Some []),
        (''unpaidPrincipleBalanceFrom'', Some []),
        (''unpaidPrincipleBalanceTo'', Some []),
        (''electionDemandFrom'', Some []),
        (''electionDemandTo'', Some []),
        (''attorneyFileNumber'', Some [])]
       (kwargs a)"

record search_result =
  success :: bool
  response_type :: string
  message :: "string option"
  html :: string
  soup :: "node option"
  url :: string

definition has_results_table :: "world \<Rightarrow> response \<Rightarrow> bool" where
  \<comment> \<open>\<open>soup.find('table', {'id': 'gridSearchResults'})\<close> is not \<open>None\<close>\<close>
  "has_results_table w resp \<longleftrightarrow>
     find_tag (BeautifulSoup w (resp_text resp)) ''table'' [(''id'', ''gridSearchResults'')] \<noteq> None"

definition is_case_details :: "response \<Rightarrow> bool" where
  "is_case_details resp \<longleftrightarrow> sublist ''/CourtCase.aspx/Details/'' (resp_url resp)"

definition classify_response :: "world \<Rightarrow> response \<Rightarrow> search_result" where
  \<comment> \<open>the end of \<open>search\<close>, from the parse of the response on\<close>
  "classify_response w resp =
     (if has_results_table w resp then
        \<lparr>success = True, response_type = ''search_results'', message = None,
         html = resp_text resp, soup = Some (BeautifulSoup w (resp_text resp)),
         url = resp_url resp\<rparr>
      else if is_case_details resp then
        \<lparr>success = True, response_type = ''case_details'', message = None,
         html = resp_text resp, soup = Some (BeautifulSoup w (resp_text resp)),
         url = resp_url resp\<rparr>
      else
        \<lparr>success = False, response_type = ''unknown'',
         message = Some ''No results found or search failed'',
         html = resp_text resp, soup = None, url = resp_url resp\<rparr>)"

definition search_request :: "client \<Rightarrow> search_args \<Rightarrow> request" where
  "search_request c a =
     POST (UrlJoin (base_url c) ''/BenchmarkWeb/CourtCase.aspx/CaseSearch'')
       (form_data (csrf_token_body c) a)"

definition ensure_token :: "world \<Rightarrow> client \<Rightarrow> (error + unit) \<times> client" where
  \<comment> \<open>\<open>if not self._csrf_token_body: self._get_search_page()\<close>\<close>
  "ensure_token w c = (if \<not> truthy (csrf_token_body c) then get_search_page w c else (Inr (), c))"

definition search :: "world \<Rightarrow> search_args \<Rightarrow> client \<Rightarrow> (error + search_result) \<times> client" where
  "search w a c =
     (case ensure_token w c of
        (Inl e, c1) \<Rightarrow> (Inl e, c1)
      | (Inr u, c1) \<Rightarrow>
          (case session_request w (search_request c1 a) c1 of (resp, c2) \<Rightarrow>
             if \<not> resp_ok resp then (Inl HTTPError, c2)
             else (Inr (classify_response w resp), c2)))"

fun searches :: "world \<Rightarrow> search_args list \<Rightarrow> client \<Rightarrow> client" where
  \<comment> \<open>one search after the other on the same client, whatever each one returns\<close>
  "searches w [] c = c"
| "searches w (a # as) c = searches w as (snd (search w a c))"

section \<open>Case records\<close>

text \<open>
  A case record is a Python dictionary in insertion order. Its values are strings, lists
  and dictionaries.
\<close>

datatype pyval = PStr string | PList "pyval list" | PDict "(string \<times> pyval) list"

definition str_dict :: "(string \<times> string) list \<Rightarrow> pyval" where
  \<comment> \<open>a dictionary whose values are strings\<close>
  "str_dict d = PDict (map (\<lambda>kv. (fst kv, PStr (snd kv))) d)"

definition snake_key :: "string \<Rightarrow> string" where
  \<comment> \<open>\<open>label.lower().replace(' ', '_')\<close>\<close>
  "snake_key label = replace '' '' ''_'' (lower label)"

subsection \<open>Case number\<close>

definition title_case_number :: "node \<Rightarrow> string option" where
  \<comment> \<open>Method 1: the page title before the first dash\<close>
  "title_case_number sp =
     (case find_tag sp ''title'' [] of
        None \<Rightarrow> None
      | Some title_tag \<Rightarrow>
          (case split_chr CHR ''-'' (get_text title_tag) of
             [] \<Rightarrow> None
           | p # _ \<Rightarrow>
               (let potential_case = strip p
                in if search_case_pattern potential_case then Some potential_case else None)))"

definition heading_case_number :: "node \<Rightarrow> string option \<Rightarrow> string option" where
  \<comment> \<open>Method 2: \<open>h2\<close> with class \<open>case-heading\<close>\<close>
  "heading_case_number sp case_number =
     (if \<not> truthy case_number then
        (case find_tag sp ''h2'' [(''class'', ''case-heading'')] of
           None \<Rightarrow> case_number
         | Some case_heading \<Rightarrow> Some (get_text case_heading))
      else case_number)"

definition script_match :: "node \<Rightarrow> string option" where
  \<comment> \<open>one turn of the loop: group 1 of the match in \<open>script.string\<close>, if there is one\<close>
  "script_match script =
     (if truthy (node_string script) then search_caseNumber (or_empty (node_string script))
      else None)"

fun first_script_match :: "node list \<Rightarrow> string option" where
  \<comment> \<open>the loop over the script tags, left at the first match\<close>
  "first_script_match [] = None"
| "first_script_match (script # scripts) =
     (case script_match script of
        Some g \<Rightarrow> Some g
      | None \<Rightarrow> first_script_match scripts)"

definition script_case_number :: "node \<Rightarrow> string option \<Rightarrow> string option" where
  \<comment> \<open>Method 3: the JavaScript variable\<close>
  "script_case_number sp case_number =
     (if \<not> truthy case_number then
        (case first_script_match (find_all sp [''script''] []) of
           None \<Rightarrow> case_number
         | Some g \<Rightarrow> Some g)
      else case_number)"

definition recover_case_number :: "node \<Rightarrow> string option" where
  \<comment> \<open>the local \<open>case_number\<close> after the three methods\<close>
  "recover_case_number sp =
     script_case_number sp (heading_case_number sp (title_case_number sp))"

definition store_case_number :: "node \<Rightarrow> (string \<times> pyval) list" where
  \<comment> \<open>\<open>case_data\<close> after \<open>if case_number: case_data['case_number'] = case_number\<close>\<close>
  "store_case_number sp =
     (case recover_case_number sp of
        None \<Rightarrow> []
      | Some cn \<Rightarrow> if cn = [] then [] else [(''case_number'', PStr cn)])"

subsection \<open>Detail tables, parties, charges\<close>

definition detail_row :: "(string \<times> pyval) list \<Rightarrow> node \<Rightarrow> (string \<times> pyval) list" where
  "detail_row case_data row =
     (case find_all row [''th'', ''td''] [] of
        c0 # c1 # _ \<Rightarrow>
          (let label = rstrip_chr CHR '':'' (get_text c0); val = get_text c1
           in if label \<noteq> [] \<and> val \<noteq> []
              then AList.update (snake_key label) (PStr val) case_data
              else case_data)
      | _ \<Rightarrow> case_data)"

definition detail_table :: "(string \<times> pyval) list \<Rightarrow> node \<Rightarrow> (string \<times> pyval) list" where
  "detail_table case_data table =
     (if get_attr table ''id'' = Some (AStr ''gridDockets'') then case_data
      else foldl detail_row case_data (find_all table [''tr''] []))"

definition detail_tables :: "node \<Rightarrow> (string \<times> pyval) list \<Rightarrow> (string \<times> pyval) list" where
  "detail_tables sp case_data =
     foldl detail_table case_data (find_all sp [''table''] [(''class'', ''table'')])"

definition find_section :: "node \<Rightarrow> string \<Rightarrow> node option" where
  \<comment> \<open>\<open>soup.find('div', id=name) or soup.find('section', class_=name)\<close>\<close>
  "find_section sp name =
     (case find_tag sp ''div'' [(''id'', name)] of
        Some d \<Rightarrow> Some d
      | None \<Rightarrow> find_tag sp ''section'' [(''class'', name)])"

definition page_parties :: "node \<Rightarrow> pyval list" where
  "page_parties parties_section =
     concat (map (\<lambda>row. case find_all row [''td''] [] of
                     c0 # c1 # _ \<Rightarrow>
                       [PDict [(''name'', PStr (get_text c0)), (''type'', PStr (get_text c1))]]
                   | _ \<Rightarrow> [])
               (find_all parties_section [''tr''] []))"

definition parties_block :: "node \<Rightarrow> (string \<times> pyval) list \<Rightarrow> (string \<times> pyval) list" where
  "parties_block sp case_data =
     (case find_section sp ''parties'' of
        None \<Rightarrow> case_data
      | Some parties_section \<Rightarrow>
          (let parties = page_parties parties_section
           in if parties \<noteq> [] then AList.update ''parties'' (PList parties) case_data
              else case_data))"

definition page_charges :: "node \<Rightarrow> string list" where
  "page_charges charges_section =
     concat (map (\<lambda>row. let cells = find_all row [''td''] []
                   in if cells \<noteq> [] then
                        (let charge_text = join '' '' (map get_text cells)
                         in if charge_text \<noteq> [] then [charge_text] else [])
                      else [])
               (find_all charges_section [''tr''] []))"

definition charges_block :: "node \<Rightarrow> (string \<times> pyval) list \<Rightarrow> (string \<times> pyval) list" where
  "charges_block sp case_data =
     (case find_section sp ''charges'' of
        None \<Rightarrow> case_data
      | Some charges_section \<Rightarrow>
          (let charges = page_charges charges_section
           in if charges \<noteq> [] then AList.update ''charges'' (PList (map PStr charges)) case_data
              else case_data))"

subsection \<open>Docket history on the case details page\<close>

definition table_headers :: "node \<Rightarrow> string list" where
  \<comment> \<open>the snake-case texts of the \<open>th\<close> cells of the first \<open>thead\<close>, or no header\<close>
  "table_headers table =
     (case find_tag table ''thead'' [] of
        None \<Rightarrow> []
      | Some header_row \<Rightarrow> map (\<lambda>cell. snake_key (get_text cell)) (find_all header_row [''th''] []))"

definition page_docket_id :: "node \<Rightarrow> string" where
  "page_docket_id first_cell =
     (case find_tag first_cell ''img'' [] of
        None \<Rightarrow> []
      | Some img_tag \<Rightarrow>
          (case truthy_head (get_attr img_tag ''rel'') of
             Some rel \<Rightarrow> rel
           | None \<Rightarrow>
               (case truthy_head (get_attr img_tag ''id'') of
                  Some id_val \<Rightarrow> replace ''img_'' [] id_val
                | None \<Rightarrow> [])))"

definition page_docket_entry :: "string list \<Rightarrow> node list \<Rightarrow> (string \<times> string) list" where
  \<comment> \<open>one row with at least one cell\<close>
  "page_docket_entry headers cells =
     (let docket_id = (case cells of [] \<Rightarrow> [] | first_cell # _ \<Rightarrow> page_docket_id first_cell)
      in if headers \<noteq> [] \<and> length headers = length cells then
           (let entry = dict_update [] (zip headers (map get_text cells))
            in if [] \<in> set (map fst entry)
               then AList.update ''id'' docket_id (AList.delete [] entry)
               else AList.update ''id'' docket_id entry)
         else
           AList.update ''id'' docket_id
             (dict_update []
                (map (\<lambda>ic. (''column_'' @ str_nat (fst ic), get_text (snd ic)))
                   (List.enumerate 0 cells))))"

definition page_docket_entries :: "node \<Rightarrow> (string \<times> string) list list" where
  \<comment> \<open>\<open>docket_entries\<close> for the table found on the page\<close>
  "page_docket_entries docket_table =
     (let headers = table_headers docket_table
      in case find_tag docket_table ''tbody'' [] of
           None \<Rightarrow> []
         | Some tbody \<Rightarrow>
             concat (map (\<lambda>row. let cells = find_all row [''td''] []
                           in if cells \<noteq> [] then [page_docket_entry headers cells] else [])
                       (find_all tbody [''tr''] [])))"

definition docket_block :: "node \<Rightarrow> (string \<times> pyval) list \<Rightarrow> (string \<times> pyval) list" where
  "docket_block sp case_data =
     (case find_tag sp ''table'' [(''id'', ''gridDockets'')] of
        None \<Rightarrow> case_data
      | Some docket_table \<Rightarrow>
          (let docket_entries = page_docket_entries docket_table
           in if docket_entries \<noteq> []
              then AList.update ''docket_history'' (PList (map str_dict docket_entries)) case_data
              else case_data))"

definition parse_case_details :: "node \<Rightarrow> (string \<times> pyval) list" where
  "parse_case_details sp =
     docket_block sp (charges_block sp (parties_block sp (detail_tables sp (store_case_number sp))))"

section \<open>The AJAX fragments\<close>

record summary_result =
  summary_success :: bool
  summary_data :: "(string \<times> pyval) list"
  summary_html :: string

record dockets_result =
  dockets_success :: bool
  docket_history :: "(string \<times> string) list list"
  dockets_html :: "string option"

definition fragment_request :: "world \<Rightarrow> client \<Rightarrow> string \<Rightarrow> string \<Rightarrow> string \<Rightarrow> request" where
  \<comment> \<open>the GET of a fragment: the case id in the path, \<open>digest\<close> and \<open>time\<close> as parameters\<close>
  "fragment_request w c path case_id digest =
     GET (UrlJoin (base_url c) (path @ case_id))
       [(''digest'', digest), (''time'', strftime_now w (requests_sent c))]"

subsection \<open>Case summary\<close>

definition blank_values :: "string list" where
  \<comment> \<open>\<open>['', '\xa0', '&#160;']\<close>\<close>
  "blank_values = [[], [CHR 0xA0], ''&#160;'']"

definition dl_pairs :: "node \<Rightarrow> (node \<times> node) list" where
  \<comment> \<open>\<open>zip(dl.find_all('dt'), dl.find_all('dd'))\<close>\<close>
  "dl_pairs dl = zip (find_all dl [''dt''] []) (find_all dl [''dd''] [])"

definition dl_item :: "(string \<times> pyval) list \<Rightarrow> node \<times> node \<Rightarrow> (string \<times> pyval) list" where
  "dl_item case_data p =
     (let label = rstrip_chr CHR '':'' (get_text (fst p)); val = get_text (snd p)
      in if label \<noteq> [] \<and> val \<noteq> [] \<and> val \<notin> set blank_values
         then AList.update (snake_key label) (PStr val) case_data
         else case_data)"

definition summary_lists :: "node \<Rightarrow> (string \<times> pyval) list \<Rightarrow> (string \<times> pyval) list" where
  "summary_lists sp case_data =
     foldl (\<lambda>cd dl. foldl dl_item cd (dl_pairs dl)) case_data
       (find_all sp [''dl''] [(''class'', ''dl-horizontal'')])"

definition summary_party :: "node list \<Rightarrow> pyval list" where
  \<comment> \<open>the party of one row, if the row has two cells or more\<close>
  "summary_party cells =
     (case cells of
        c0 # c1 # rest \<Rightarrow>
          (let party_type = get_text c0;
               name = (case find_tag c1 ''a'' [] of
                         Some name_link \<Rightarrow> get_text name_link
                       | None \<Rightarrow> get_text c1);
               attorney = (case rest of [] \<Rightarrow> None | c2 # _ \<Rightarrow> Some (get_text c2));
               party = [(''type'', PStr party_type), (''name'', PStr name)]
           in [PDict (if truthy attorney
                      then AList.update ''attorney'' (PStr (or_empty attorney)) party
                      else party)])
      | _ \<Rightarrow> [])"

definition summary_parties :: "node \<Rightarrow> (string \<times> pyval) list \<Rightarrow> (string \<times> pyval) list" where
  "summary_parties sp case_data =
     (case find_tag sp ''table'' [(''id'', ''gridParties'')] of
        None \<Rightarrow> case_data
      | Some parties_table \<Rightarrow>
          (let parties =
                 (case find_tag parties_table ''tbody'' [] of
                    None \<Rightarrow> []
                  | Some party_rows \<Rightarrow>
                      concat (map (\<lambda>row. summary_party (find_all row [''td''] []))
                                (find_all party_rows [''tr''] [])))
           in if parties \<noteq> [] then AList.update ''parties'' (PList parties) case_data
              else case_data))"

definition charge_fields :: "string list \<Rightarrow> node list \<Rightarrow> (string \<times> string) list" where
  \<comment> \<open>the dictionary \<open>charge\<close> of one row with at least one cell\<close>
  "charge_fields headers cells =
     (let keys = (if headers \<noteq> [] \<and> length headers = length cells then headers
                  else map (\<lambda>i. ''field_'' @ str_nat i) [0..<length cells])
      in dict_update []
           (filter (\<lambda>kv. snd kv \<noteq> [] \<and> snd kv \<notin> set blank_values)
              (zip keys (map get_text cells))))"

definition summary_charge_rows :: "node \<Rightarrow> (string \<times> string) list list" where
  "summary_charge_rows charges_table =
     (let headers = table_headers charges_table
      in case find_tag charges_table ''tbody'' [] of
           None \<Rightarrow> []
         | Some charge_rows \<Rightarrow>
             concat (map (\<lambda>row. let cells = find_all row [''td''] []
                           in if cells \<noteq> [] \<and> charge_fields headers cells \<noteq> []
                              then [charge_fields headers cells] else [])
                       (find_all charge_rows [''tr''] [])))"

definition summary_charges :: "node \<Rightarrow> (string \<times> pyval) list \<Rightarrow> (string \<times> pyval) list" where
  "summary_charges sp case_data =
     (case find_tag sp ''table'' [(''id'', ''gridCharges'')] of
        None \<Rightarrow> case_data
      | Some charges_table \<Rightarrow>
          (let charges = summary_charge_rows charges_table
           in if charges \<noteq> [] then AList.update ''charges'' (PList (map str_dict charges)) case_data
              else case_data))"

definition parse_case_summary :: "node \<Rightarrow> (string \<times> pyval) list" where
  \<comment> \<open>\<open>case_data\<close> of \<open>get_case_summary\<close>, from the parsed fragment\<close>
  "parse_case_summary sp = summary_charges sp (summary_parties sp (summary_lists sp []))"

definition get_case_summary ::
  "world \<Rightarrow> string \<Rightarrow> string \<Rightarrow> client \<Rightarrow> (error + summary_result) \<times> client" where
  "get_case_summary w case_id digest c =
     (case session_request w
             (fragment_request w c ''/BenchmarkWeb/CourtCase.aspx/DetailsSummary/'' case_id digest) c of
        (resp, c1) \<Rightarrow>
          if \<not> resp_ok resp then (Inl HTTPError, c1)
          else (Inr \<lparr>summary_success = True,
                      summary_data = parse_case_summary (BeautifulSoup w (resp_text resp)),
                      summary_html = resp_text resp\<rparr>, c1))"

subsection \<open>Docket history fragment\<close>

definition fragment_docket_id :: "node \<Rightarrow> string" where
  "fragment_docket_id first_cell =
     (case find_tag first_cell ''img'' [] of
        None \<Rightarrow> []
      | Some img_tag \<Rightarrow>
          (let rel_attr = get_attr img_tag ''rel''; id_attr = get_attr img_tag ''id''
           in case truthy_head rel_attr of
                Some rel \<Rightarrow> rel
              | None \<Rightarrow>
                  (case truthy_head id_attr of
                     Some id_val \<Rightarrow> replace ''img_'' [] id_val
                   | None \<Rightarrow> [])))"

definition fragment_docket_entry :: "string list \<Rightarrow> node list \<Rightarrow> (string \<times> string) list" where
  "fragment_docket_entry headers cells =
     (let docket_id = (case cells of [] \<Rightarrow> [] | first_cell # _ \<Rightarrow> fragment_docket_id first_cell)
      in if headers \<noteq> [] \<and> length headers = length cells then
           (let entry = dict_update [] (zip headers (map get_text cells))
            in if [] \<in> set (map fst entry)
               then AList.update ''id'' docket_id (AList.delete [] entry)
               else AList.update ''id'' docket_id entry)
         else
           AList.update ''id'' docket_id
             (dict_update []
                (map (\<lambda>ic. (''column_'' @ str_nat (fst ic), get_text (snd ic)))
                   (List.enumerate 0 cells))))"

definition fragment_docket_entries :: "node \<Rightarrow> (string \<times> string) list list" where
  "fragment_docket_entries docket_table =
     (let headers = (case find_tag docket_table ''thead'' [] of
                       None \<Rightarrow> []
                     | Some header_row \<Rightarrow>
                         map (\<lambda>cell. replace '' '' ''_'' (lower (get_text cell)))
                           (find_all header_row [''th''] []))
      in case find_tag docket_table ''tbody'' [] of
           None \<Rightarrow> []
         | Some tbody \<Rightarrow>
             concat (map (\<lambda>row. let cells = find_all row [''td''] []
                           in if cells \<noteq> [] then [fragment_docket_entry headers cells] else [])
                       (find_all tbody [''tr''] [])))"

definition parse_case_dockets :: "string \<Rightarrow> node \<Rightarrow> dockets_result" where
  \<comment> \<open>what \<open>get_case_dockets\<close> returns for a fragment with text \<open>t\<close> parsed as \<open>sp\<close>\<close>
  "parse_case_dockets t sp =
     (case find_tag sp ''table'' [(''id'', ''gridDockets'')] of
        None \<Rightarrow> \<lparr>dockets_success = False, docket_history = [], dockets_html = None\<rparr>
      | Some docket_table \<Rightarrow>
          \<lparr>dockets_success = True, docket_history = fragment_docket_entries docket_table,
           dockets_html = Some t\<rparr>)"

definition get_case_dockets ::
  "world \<Rightarrow> string \<Rightarrow> string \<Rightarrow> client \<Rightarrow> (error + dockets_result) \<times> client" where
  "get_case_dockets w case_id digest c =
     (case session_request w
             (fragment_request w c ''/BenchmarkWeb/CourtCase.aspx/CaseDockets/'' case_id digest) c of
        (resp, c1) \<Rightarrow>
          if \<not> resp_ok resp then (Inl HTTPError, c1)
          else (Inr (parse_case_dockets (resp_text resp) (BeautifulSoup w (resp_text resp))), c1))"

subsection \<open>Case details with dockets\<close>

definition merge_fragments ::
  "world \<Rightarrow> string \<Rightarrow> string \<Rightarrow> (string \<times> pyval) list \<Rightarrow> client
     \<Rightarrow> (error + (string \<times> pyval) list) \<times> client" where
  \<comment> \<open>the branch taken when the case id and the digest are both found\<close>
  "merge_fragments w case_id digest case_data c =
     (case get_case_summary w case_id digest c of
        (Inl e, c1) \<Rightarrow> (Inl e, c1)
      | (Inr summary, c1) \<Rightarrow>
          (let case_data1 = (if summary_success summary
                             then dict_update case_data (summary_data summary)
                             else case_data)
           in case get_case_dockets w case_id digest c1 of
                (Inl e, c2) \<Rightarrow> (Inl e, c2)
              | (Inr dockets, c2) \<Rightarrow>
                  (Inr (if dockets_success dockets
                        then AList.update ''docket_history''
                               (PList (map str_dict (docket_history dockets))) case_data1
                        else AList.update ''docket_history'' (PList []) case_data1), c2)))"

definition get_case_details_with_dockets ::
  "world \<Rightarrow> string \<Rightarrow> client \<Rightarrow> (error + (string \<times> pyval) list) \<times> client" where
  "get_case_details_with_dockets w case_url c =
     (case session_request w (GET (Url case_url) []) c of
        (resp, c1) \<Rightarrow>
          if \<not> resp_ok resp then (Inl HTTPError, c1)
          else
            (let case_data = AList.update ''url'' (PStr (resp_url resp))
                               (parse_case_details (BeautifulSoup w (resp_text resp)))
             in case (search_cid (resp_text resp), search_caseDigest (resp_text resp)) of
                  (Some case_id, Some digest) \<Rightarrow> merge_fragments w case_id digest case_data c1
                | _ \<Rightarrow> (Inr (AList.update ''docket_history'' (PList []) case_data), c1)))"

section \<open>Writes of the label/value loops\<close>

text \<open>
  The dictionary entries that the generic detail tables of a page write, in the order
  of the writes; the loop itself is \<^const>\<open>detail_tables\<close>.
\<close>

definition detail_row_items :: "node \<Rightarrow> (string \<times> pyval) list" where
  "detail_row_items row =
     (case find_all row [''th'', ''td''] [] of
        c0 # c1 # _ \<Rightarrow>
          (let label = rstrip_chr CHR '':'' (get_text c0); val = get_text c1
           in if label \<noteq> [] \<and> val \<noteq> [] then [(snake_key label, PStr val)] else [])
      | _ \<Rightarrow> [])"

definition detail_table_items :: "node \<Rightarrow> (string \<times> pyval) list" where
  "detail_table_items table =
     (if get_attr table ''id'' = Some (AStr ''gridDockets'') then []
      else concat (map detail_row_items (find_all table [''tr''] [])))"

definition detail_items :: "node \<Rightarrow> (string \<times> pyval) list" where
  "detail_items sp =
     concat (map detail_table_items (find_all sp [''table''] [(''class'', ''table'')]))"

definition dl_item_writes :: "node \<times> node \<Rightarrow> (string \<times> pyval) list" where
  "dl_item_writes p =
     (let label = rstrip_chr CHR '':'' (get_text (fst p)); val = get_text (snd p)
      in if label \<noteq> [] \<and> val \<noteq> [] \<and> val \<notin> set blank_values
         then [(snake_key label, PStr val)] else [])"

definition summary_items :: "node \<Rightarrow> (string \<times> pyval) list" where
  "summary_items sp =
     concat (map (\<lambda>dl. concat (map dl_item_writes (dl_pairs dl)))
               (find_all sp [''dl''] [(''class'', ''dl-horizontal'')]))"

section \<open>Shapes of record values\<close>

fun is_string :: "pyval \<Rightarrow> bool" where
  "is_string (PStr s) = True"
| "is_string v = False"



definition script_tier :: "node \<Rightarrow> (string \<times> pyval) list" where
  \<comment> \<open>what Method 3 alone stores: the first \<open>var caseNumber = '...'\<close> of a script\<close>
  "script_tier sp =
     (case first_script_match (find_all sp [''script''] []) of
        None \<Rightarrow> []
      | Some g \<Rightarrow> [(''case_number'', PStr g)])"

section \<open>Example documents and sessions\<close>

definition document :: "node list \<Rightarrow> node" where
  \<comment> \<open>the root of a parsed document\<close>
  "document cs = Tag ''[document]'' [] cs"

definition fresh_client :: client where
  \<comment> \<open>the client as \<open>__init__\<close> leaves it\<close>
  "fresh_client =
     \<lparr>base_url = ''https://benchmark.atlantaga.gov'', cookies = [],
      csrf_token_body = None, csrf_cookie_name = None, requests_sent = []\<rparr>"

definition cached_client :: client where
  \<comment> \<open>a client after a successful token bootstrap\<close>
  "cached_client =
     fresh_client\<lparr>cookies := [(''__RequestVerificationToken_X9'', ''v1'')],
       csrf_token_body := Some ''tok1'',
       csrf_cookie_name := Some ''__RequestVerificationToken_X9''\<rparr>"

definition plain_args :: search_args where
  \<comment> \<open>\<open>search("Smith, John")\<close>\<close>
  "plain_args =
     \<lparr>search_term = ''Smith, John'', search_type = ''Name'', court_types = None,
      party_types = None, divisions = None, opened_from = None, opened_to = None,
      closed_from = None, closed_to = None, kwargs = []\<rparr>"

definition override_args :: search_args where
  \<comment> \<open>\<open>search("Smith, John", courtTypes='')\<close>\<close>
  "override_args = plain_args\<lparr>kwargs := [(''courtTypes'', Some [])]\<rparr>"

definition results_page :: node where
  "results_page = document [Tag ''table'' [(''id'', AStr ''gridSearchResults'')] []]"

definition token_page :: node where
  "token_page =
     document [Tag ''input'' [(''type'', AStr ''hidden''),
       (''name'', AStr ''__RequestVerificationToken''), (''value'', AStr ''tok1'')] []]"

definition titled_page :: node where
  \<comment> \<open>a title with a case number, and a detail table with a case number row\<close>
  "titled_page =
     document
       [Tag ''title'' [] [NavigableString ''21TR1 - STATE vs DOE''],
        Tag ''table'' [(''class'', AList [''table''])]
          [Tag ''tr'' []
             [Tag ''th'' [] [NavigableString ''Case Number:''],
              Tag ''td'' [] [NavigableString ''99ZZ9'']],
           Tag ''tr'' []
             [Tag ''th'' [] [NavigableString ''URL''],
              Tag ''td'' [] [NavigableString ''about:blank'']]]]"

definition charges_page :: node where
  "charges_page =
     document
       [Tag ''div'' [(''id'', AStr ''charges'')]
          [Tag ''table'' []
             [Tag ''tr'' []
                [Tag ''td'' [] [NavigableString ''40-6-181''],
                 Tag ''td'' [] [NavigableString ''Speeding'']]]]]"

definition example_dl :: node where
  \<comment> \<open>a definition list with two labels and one value\<close>
  "example_dl =
     Tag ''dl'' [(''class'', AList [''dl-horizontal''])]
       [Tag ''dt'' [] [NavigableString ''Judge:''],
        Tag ''dt'' [] [NavigableString ''Status:''],
        Tag ''dd'' [] [NavigableString ''OPEN'']]"

definition summary_fragment :: node where
  \<comment> \<open>the example definition list and a charges table\<close>
  "summary_fragment =
     document
       [example_dl,
        Tag ''table'' [(''id'', AStr ''gridCharges'')]
          [Tag ''thead'' [] [Tag ''tr'' [] [Tag ''th'' [] [NavigableString ''Statute'']]],
           Tag ''tbody'' [] [Tag ''tr'' [] [Tag ''td'' [] [NavigableString ''40-6-181'']]]]]"

definition dockets_fragment :: node where
  \<comment> \<open>a docket table whose row has one cell more than the header\<close>
  "dockets_fragment =
     document
       [Tag ''table'' [(''id'', AStr ''gridDockets'')]
          [Tag ''thead'' [] [Tag ''tr'' [] [Tag ''th'' [] [NavigableString ''Docket Text'']]],
           Tag ''tbody'' []
             [Tag ''tr'' []
                [Tag ''td'' [] [Tag ''img'' [(''id'', AStr ''img_77'')] []],
                 Tag ''td'' [] [NavigableString ''ARRAIGNMENT'']]]]]"

definition heading_page :: node where
  \<comment> \<open>a title without a case number, and a case heading\<close>
  "heading_page =
     document
       [Tag ''title'' [] [NavigableString ''Case Details''],
        Tag ''h2'' [(''class'', AList [''case-heading''])] [NavigableString '' 21TR1 '']]"

definition results_response :: response where
  "results_response =
     \<lparr>resp_ok = True, resp_text = ''results'',
      resp_url = ''https://benchmark.atlantaga.gov/BenchmarkWeb/CourtCase.aspx/Details/5''\<rparr>"

definition details_response :: response where
  "details_response =
     \<lparr>resp_ok = True, resp_text = ''titled'',
      resp_url = ''https://benchmark.atlantaga.gov/BenchmarkWeb/CourtCase.aspx/Details/5''\<rparr>"

definition empty_response :: response where
  "empty_response =
     \<lparr>resp_ok = True, resp_text = [],
      resp_url = ''https://benchmark.atlantaga.gov/BenchmarkWeb/CourtCase.aspx/CaseSearch''\<rparr>"

definition script_page :: node where
  \<comment> \<open>no case number in the title, no case heading, the number in the second script\<close>
  "script_page =
     document
       [Tag ''title'' [] [NavigableString ''Case Details''],
        Tag ''script'' [] [NavigableString ''var cid = 257 + 0;''],
        Tag ''script'' [] [NavigableString ''var caseNumber = '99TR268487'; var d = 'x';'']]"

definition all_tiers_page :: node where
  \<comment> \<open>a case number in the title, another in the heading, a third in a script\<close>
  "all_tiers_page =
     document
       [Tag ''title'' [] [NavigableString '' 99TR268487 - STATE vs DOE - 2''],
        Tag ''h2'' [(''class'', AList [''case-heading''])] [NavigableString ''22TR2''],
        Tag ''script'' [] [NavigableString ''var caseNumber = '23TR3';'']]"

definition heading_script_page :: node where
  \<comment> \<open>a lower-case title, a case heading, and a script with another number\<close>
  "heading_script_page =
     document
       [Tag ''title'' [] [NavigableString ''abc123 - state vs doe''],
        Tag ''h2'' [(''class'', AList [''case-heading''])] [NavigableString ''22TR2''],
        Tag ''script'' [] [NavigableString ''var caseNumber = '23TR3';'']]"

definition no_number_page :: node where
  \<comment> \<open>a title that is a party name, an empty heading, a script without the variable\<close>
  "no_number_page =
     document
       [Tag ''title'' [] [NavigableString ''DOE vs ROE''],
        Tag ''h2'' [(''class'', AList [''case-heading''])] [NavigableString ''  ''],
        Tag ''script'' []
          [NavigableString (''var caseNumber = '' @ [CHR 0x27, CHR 0x27] @ '';'')]]"

definition script_cell_page :: node where
  \<comment> \<open>a case number row whose value cell holds nothing but a script\<close>
  "script_cell_page =
     document
       [Tag ''title'' [] [NavigableString ''21TR1 - STATE vs DOE''],
        Tag ''table'' [(''class'', AList [''table''])]
          [Tag ''tr'' []
             [Tag ''th'' [] [NavigableString ''Case Number:''],
              Tag ''td'' [] [Tag ''script'' [] [NavigableString ''var n = 1;'']]],
           Tag ''tr'' []
             [Tag ''th'' [] [NavigableString ''Status''],
              Tag ''td'' [] [NavigableString ''OPEN'', Tag ''script'' [] [NavigableString ''var n = 1;'']]]]]"

definition example_url :: string where
  "example_url = ''https://benchmark.atlantaga.gov/BenchmarkWeb/CourtCase.aspx/Details/5''"

definition scripted_text :: string where
  \<comment> \<open>a page text with the case id and the digest in its JavaScript\<close>
  "scripted_text = ''titled var cid = 257 + 0; var caseDigest = 'F7EK';''"

definition example_parser :: "string \<Rightarrow> node" where
  \<comment> \<open>each example text stands for the markup of the document it is parsed to\<close>
  "example_parser t =
     (if t = ''results'' then results_page
      else if t = ''token'' then token_page
      else if t = ''titled'' then titled_page
      else if t = scripted_text then titled_page
      else if t = ''charges'' then charges_page
      else if t = ''summary'' then summary_fragment
      else if t = ''dockets'' then dockets_fragment
      else document [])"

definition example_world :: "string \<Rightarrow> (string \<times> string) list \<Rightarrow> world" where
  \<comment> \<open>a server that answers the landing page and the search with the text \<open>t\<close> and
      leaves the jar \<open>jar\<close>, and answers the fragments with their examples\<close>
  "example_world t jar =
     \<lparr>transport = (\<lambda>sent rq old_jar.
        (case rq of
           GET (UrlJoin b p) ps \<Rightarrow>
             if prefix ''/BenchmarkWeb/CourtCase.aspx/DetailsSummary/'' p
             then \<lparr>resp_ok = True, resp_text = ''summary'', resp_url = p\<rparr>
             else if prefix ''/BenchmarkWeb/CourtCase.aspx/CaseDockets/'' p
             then \<lparr>resp_ok = True, resp_text = ''dockets'', resp_url = p\<rparr>
             else \<lparr>resp_ok = True, resp_text = t, resp_url = p\<rparr>
         | GET (Url u) ps \<Rightarrow> \<lparr>resp_ok = True, resp_text = t, resp_url = u\<rparr>
         | POST tg d \<Rightarrow>
             \<lparr>resp_ok = True, resp_text = t,
              resp_url = ''https://benchmark.atlantaga.gov/BenchmarkWeb/CourtCase.aspx/Details/5''\<rparr>,
         jar)),
      BeautifulSoup = example_parser,
      strftime_now = (\<lambda>sent. ''09:15:00 AM'')\<rparr>"

section \<open>Dictionaries\<close>

lemma map_of_dict_update:
  "map_of (dict_update d e) k = (case map_of (rev e) k of Some v \<Rightarrow> Some v | None \<Rightarrow> map_of d k)"
  unfolding dict_update_def
  by (induction e arbitrary: d) (auto simp: update_conv' map_add_def split: option.splits)

lemma dict_update_append: "dict_update d (e1 @ e2) = dict_update (dict_update d e1) e2"
  by (simp add: dict_update_def)

lemma dict_update_Nil: "dict_update d [] = d"
  by (simp add: dict_update_def)

lemma foldl_dict_update:
  assumes "\<And>cd x. f cd x = dict_update cd (g x)"
  shows "foldl f cd xs = dict_update cd (concat (map g xs))"
  by (induction xs arbitrary: cd) (simp_all add: assms dict_update_Nil dict_update_append)

lemma map_of_rev_in: "map_of (rev e) k = Some v \<Longrightarrow> (k, v) \<in> set e"
  by (drule map_of_SomeD) simp

lemma map_of_rev_None: "k \<notin> fst ` set e \<Longrightarrow> map_of (rev e) k = None"
  by (simp add: map_of_eq_None_iff)

section \<open>The label/value loops as sequences of writes\<close>

lemma detail_row_writes: "detail_row cd row = dict_update cd (detail_row_items row)"
  by (simp add: detail_row_def detail_row_items_def dict_update_def Let_def split: list.splits)

lemma detail_table_writes: "detail_table cd t = dict_update cd (detail_table_items t)"
  by (simp add: detail_table_def detail_table_items_def dict_update_Nil
        foldl_dict_update [where g = detail_row_items, OF detail_row_writes])

lemma detail_tables_writes: "detail_tables sp cd = dict_update cd (detail_items sp)"
  by (simp add: detail_tables_def detail_items_def
        foldl_dict_update [where g = detail_table_items, OF detail_table_writes])

lemma dl_item_is_write: "dl_item cd p = dict_update cd (dl_item_writes p)"
  by (simp add: dl_item_def dl_item_writes_def dict_update_def Let_def)

lemma summary_lists_writes: "summary_lists sp cd = dict_update cd (summary_items sp)"
  unfolding summary_lists_def summary_items_def
  by (rule foldl_dict_update) (rule foldl_dict_update, rule dl_item_is_write)

lemma detail_items_strings: "(k, v) \<in> set (detail_items sp) \<Longrightarrow> \<exists>s. v = PStr s"
  by (auto simp: detail_items_def detail_table_items_def detail_row_items_def Let_def
        split: if_splits list.splits)


section \<open>Lookups in the record of a case details page\<close>

lemma docket_block_lookup:
  "map_of (docket_block sp cd) k =
     (case find_tag sp ''table'' [(''id'', ''gridDockets'')] of
        None \<Rightarrow> map_of cd k
      | Some t \<Rightarrow>
          if k = ''docket_history'' \<and> page_docket_entries t \<noteq> []
          then Some (PList (map str_dict (page_docket_entries t)))
          else map_of cd k)"
  by (simp add: docket_block_def Let_def update_conv' split: option.splits)

lemma charges_block_lookup:
  "map_of (charges_block sp cd) k =
     (case find_section sp ''charges'' of
        None \<Rightarrow> map_of cd k
      | Some sec \<Rightarrow>
          if k = ''charges'' \<and> page_charges sec \<noteq> []
          then Some (PList (map PStr (page_charges sec)))
          else map_of cd k)"
  by (simp add: charges_block_def Let_def update_conv' split: option.splits)

lemma parties_block_lookup:
  "map_of (parties_block sp cd) k =
     (case find_section sp ''parties'' of
        None \<Rightarrow> map_of cd k
      | Some sec \<Rightarrow>
          if k = ''parties'' \<and> page_parties sec \<noteq> []
          then Some (PList (page_parties sec))
          else map_of cd k)"
  by (simp add: parties_block_def Let_def update_conv' split: option.splits)

lemma labelled_lookup:
  "map_of (detail_tables sp (store_case_number sp)) k =
     (case map_of (rev (detail_items sp)) k of
        Some v \<Rightarrow> Some v
      | None \<Rightarrow> map_of (store_case_number sp) k)"
  by (simp add: detail_tables_writes map_of_dict_update)

lemma store_case_number_keys:
  "k \<noteq> ''case_number'' \<Longrightarrow> map_of (store_case_number sp) k = None"
  by (simp add: store_case_number_def split: option.splits)

lemma labelled_lookup_other:
  assumes "k \<noteq> ''case_number''"
  shows "map_of (detail_tables sp (store_case_number sp)) k = map_of (rev (detail_items sp)) k"
  by (simp add: labelled_lookup store_case_number_keys [OF assms] split: option.splits)

lemma labelled_value_string:
  assumes "k \<noteq> ''case_number''"
    and "map_of (detail_tables sp (store_case_number sp)) k = Some v"
  shows "is_string v"
proof -
  from assms have "map_of (rev (detail_items sp)) k = Some v"
    by (simp add: labelled_lookup_other)
  then have "(k, v) \<in> set (detail_items sp)" by (rule map_of_rev_in)
  then obtain s where "v = PStr s" using detail_items_strings by blast
  then show ?thesis by simp
qed

lemma parse_case_number_lookup:
  "map_of (parse_case_details sp) ''case_number'' =
     (case map_of (rev (detail_items sp)) ''case_number'' of
        Some v \<Rightarrow> Some v
      | None \<Rightarrow> map_of (store_case_number sp) ''case_number'')"
  by (simp add: parse_case_details_def docket_block_lookup charges_block_lookup
        parties_block_lookup labelled_lookup split: option.splits)

section \<open>Case number\<close>

lemma search_case_pattern_nonempty: "search_case_pattern s \<Longrightarrow> s \<noteq> []"
  by (cases s) simp_all

lemma title_case_number_nonempty: "title_case_number sp = Some t \<Longrightarrow> t \<noteq> []"
  by (auto simp: title_case_number_def Let_def search_case_pattern_nonempty
        split: option.splits list.splits if_splits)

lemma search_quoted_nonempty: "search_quoted p s = Some g \<Longrightarrow> g \<noteq> []"
  by (induction s) (auto simp: Let_def split: if_splits)

lemma first_script_match_nonempty: "first_script_match xs = Some g \<Longrightarrow> g \<noteq> []"
  by (induction xs)
    (auto simp: script_match_def search_caseNumber_def search_quoted_nonempty
       split: if_splits option.splits)

lemma store_three_tiers:
  "store_case_number sp =
     (case title_case_number sp of
        Some t \<Rightarrow> [(''case_number'', PStr t)]
      | None \<Rightarrow>
          (case find_tag sp ''h2'' [(''class'', ''case-heading'')] of
             Some case_heading \<Rightarrow>
               if get_text case_heading \<noteq> []
               then [(''case_number'', PStr (get_text case_heading))]
               else script_tier sp
           | None \<Rightarrow> script_tier sp))"
  by (auto simp: store_case_number_def recover_case_number_def script_case_number_def
        heading_case_number_def script_tier_def
        dest: title_case_number_nonempty first_script_match_nonempty
        split: option.splits)

section \<open>Session state\<close>

lemma session_request_fields:
  "session_request w rq c = (resp, c') \<Longrightarrow>
     csrf_token_body c' = csrf_token_body c \<and> csrf_cookie_name c' = csrf_cookie_name c \<and>
     base_url c' = base_url c \<and> requests_sent c' = requests_sent c @ [rq]"
  by (auto simp: session_request_def split: prod.splits)

lemma search_cached:
  assumes "truthy (csrf_token_body c)"
  shows "csrf_token_body (snd (search w a c)) = csrf_token_body c \<and>
         csrf_cookie_name (snd (search w a c)) = csrf_cookie_name c \<and>
         base_url (snd (search w a c)) = base_url c \<and>
         requests_sent (snd (search w a c)) = requests_sent c @ [search_request c a]"
  using assms
  by (auto simp: search_def ensure_token_def dest: session_request_fields split: prod.splits)

lemma searches_cached:
  assumes "truthy (csrf_token_body c)"
  shows "csrf_token_body (searches w args c) = csrf_token_body c \<and>
         csrf_cookie_name (searches w args c) = csrf_cookie_name c \<and>
         base_url (searches w args c) = base_url c \<and>
         requests_sent (searches w args c) = requests_sent c @ map (search_request c) args"
  using assms
proof (induction args arbitrary: c)
  case Nil
  then show ?case by simp
next
  case (Cons a args)
  let ?c1 = "snd (search w a c)"
  from Cons.prems have step: "csrf_token_body ?c1 = csrf_token_body c"
    "csrf_cookie_name ?c1 = csrf_cookie_name c" "base_url ?c1 = base_url c"
    "requests_sent ?c1 = requests_sent c @ [search_request c a]"
    using search_cached [of c w a] by simp_all
  with Cons.prems have "truthy (csrf_token_body ?c1)" by simp
  from Cons.IH [OF this] step show ?case
    by (simp add: search_request_def)
qed

section \<open>Docket rows\<close>

lemma fragment_docket_id_eq: "fragment_docket_id first_cell = page_docket_id first_cell"
  by (simp add: fragment_docket_id_def page_docket_id_def Let_def split: option.splits)

lemma fragment_docket_entry_eq: "fragment_docket_entry = page_docket_entry"
proof (intro ext)
  fix headers cells
  show "fragment_docket_entry headers cells = page_docket_entry headers cells"
    by (cases cells)
      (simp_all add: fragment_docket_entry_def page_docket_entry_def fragment_docket_id_eq)
qed

lemma fragment_docket_entries_eq:
  "fragment_docket_entries docket_table = page_docket_entries docket_table"
  by (simp add: fragment_docket_entries_def page_docket_entries_def table_headers_def
        snake_key_def fragment_docket_entry_eq Let_def split: option.splits cong: if_cong)

section \<open>The patterns of the case number\<close>

lemma digit_on_line_Cons:
  "digit_on_line (c # cs) = (if \<not> isdigit c \<and> c \<noteq> CHR 0x0A then digit_on_line cs else isdigit c)"
  by (simp add: digit_on_line_def)

lemma digit_on_line_iff:
  "digit_on_line s \<longleftrightarrow> (\<exists>j < length s. isdigit (s ! j) \<and> (\<forall>k < j. s ! k \<noteq> CHR 0x0A))"
proof (induction s)
  case Nil
  then show ?case by (simp add: digit_on_line_def)
next
  case (Cons c cs)
  show ?case
  proof (cases "isdigit c")
    case True
    then have "isdigit ((c # cs) ! 0) \<and> (\<forall>k < 0. (c # cs) ! k \<noteq> CHR 0x0A)" by simp
    then have "\<exists>j < length (c # cs). isdigit ((c # cs) ! j) \<and> (\<forall>k < j. (c # cs) ! k \<noteq> CHR 0x0A)"
      by (intro exI [of _ 0]) simp
    with True show ?thesis by (simp add: digit_on_line_Cons)
  next
    case nd: False
    show ?thesis
    proof (cases "c = CHR 0x0A")
      case True
      have "\<not> (\<exists>j < length (c # cs). isdigit ((c # cs) ! j) \<and> (\<forall>k < j. (c # cs) ! k \<noteq> CHR 0x0A))"
      proof
        assume "\<exists>j < length (c # cs). isdigit ((c # cs) ! j) \<and> (\<forall>k < j. (c # cs) ! k \<noteq> CHR 0x0A)"
        then obtain j where j: "isdigit ((c # cs) ! j)" "\<forall>k < j. (c # cs) ! k \<noteq> CHR 0x0A" by blast
        from j(1) nd have "j \<noteq> 0" by (cases j) auto
        with j(2) have "(c # cs) ! 0 \<noteq> CHR 0x0A" by blast
        with True show False by simp
      qed
      with nd True show ?thesis by (simp add: digit_on_line_Cons)
    next
      case False
      have "(\<exists>j < length (c # cs). isdigit ((c # cs) ! j) \<and> (\<forall>k < j. (c # cs) ! k \<noteq> CHR 0x0A))
            \<longleftrightarrow> (\<exists>j < length cs. isdigit (cs ! j) \<and> (\<forall>k < j. cs ! k \<noteq> CHR 0x0A))"
      proof
        assume "\<exists>j < length (c # cs). isdigit ((c # cs) ! j) \<and> (\<forall>k < j. (c # cs) ! k \<noteq> CHR 0x0A)"
        then obtain j where j: "j < length (c # cs)" "isdigit ((c # cs) ! j)"
          "\<forall>k < j. (c # cs) ! k \<noteq> CHR 0x0A" by blast
        from j(2) nd obtain j' where j': "j = Suc j'" by (cases j) auto
        with j have "j' < length cs" "isdigit (cs ! j')" by simp_all
        moreover have "\<forall>k < j'. cs ! k \<noteq> CHR 0x0A"
        proof (intro allI impI)
          fix k assume "k < j'"
          then have "Suc k < j" using j' by simp
          with j(3) have "(c # cs) ! Suc k \<noteq> CHR 0x0A" by blast
          then show "cs ! k \<noteq> CHR 0x0A" by simp
        qed
        ultimately show "\<exists>j < length cs. isdigit (cs ! j) \<and> (\<forall>k < j. cs ! k \<noteq> CHR 0x0A)" by blast
      next
        assume "\<exists>j < length cs. isdigit (cs ! j) \<and> (\<forall>k < j. cs ! k \<noteq> CHR 0x0A)"
        then obtain j where j: "j < length cs" "isdigit (cs ! j)" "\<forall>k < j. cs ! k \<noteq> CHR 0x0A"
          by blast
        have "\<forall>k < Suc j. (c # cs) ! k \<noteq> CHR 0x0A"
        proof (intro allI impI)
          fix k assume "k < Suc j"
          then show "(c # cs) ! k \<noteq> CHR 0x0A" using False j(3) by (cases k) auto
        qed
        with j show "\<exists>j < length (c # cs). isdigit ((c # cs) ! j) \<and> (\<forall>k < j. (c # cs) ! k \<noteq> CHR 0x0A)"
          by (intro exI [of _ "Suc j"]) simp
      qed
      with nd False Cons.IH show ?thesis by (simp add: digit_on_line_Cons)
    qed
  qed
qed

lemma case_pattern_matches_Cons:
  "case_pattern_matches (c # cs) \<longleftrightarrow>
     (isupper_AZ c \<and> (\<exists>j < length cs. isdigit (cs ! j) \<and> (\<forall>k < j. cs ! k \<noteq> CHR 0x0A))) \<or>
     case_pattern_matches cs"
proof
  assume "case_pattern_matches (c # cs)"
  then obtain i j where ij: "i < j" "j < length (c # cs)" "isupper_AZ ((c # cs) ! i)"
    "isdigit ((c # cs) ! j)" "\<forall>k. i < k \<and> k < j \<longrightarrow> (c # cs) ! k \<noteq> CHR 0x0A"
    unfolding case_pattern_matches_def by blast
  from ij(1) obtain j' where j': "j = Suc j'" by (cases j) auto
  show "(isupper_AZ c \<and> (\<exists>j < length cs. isdigit (cs ! j) \<and> (\<forall>k < j. cs ! k \<noteq> CHR 0x0A))) \<or>
     case_pattern_matches cs"
  proof (cases i)
    case 0
    have "\<forall>k < j'. cs ! k \<noteq> CHR 0x0A"
    proof (intro allI impI)
      fix k assume "k < j'"
      then have "i < Suc k \<and> Suc k < j" using 0 j' by simp
      with ij(5) have "(c # cs) ! Suc k \<noteq> CHR 0x0A" by blast
      then show "cs ! k \<noteq> CHR 0x0A" by simp
    qed
    with ij 0 j' show ?thesis by auto
  next
    case (Suc i')
    have "\<forall>k. i' < k \<and> k < j' \<longrightarrow> cs ! k \<noteq> CHR 0x0A"
    proof (intro allI impI)
      fix k assume "i' < k \<and> k < j'"
      then have "i < Suc k \<and> Suc k < j" using Suc j' by simp
      with ij(5) have "(c # cs) ! Suc k \<noteq> CHR 0x0A" by blast
      then show "cs ! k \<noteq> CHR 0x0A" by simp
    qed
    with ij Suc j' have "case_pattern_matches cs"
      unfolding case_pattern_matches_def by (intro exI [of _ i'] exI [of _ j']) simp
    then show ?thesis by simp
  qed
next
  assume "(isupper_AZ c \<and> (\<exists>j < length cs. isdigit (cs ! j) \<and> (\<forall>k < j. cs ! k \<noteq> CHR 0x0A))) \<or>
     case_pattern_matches cs"
  then show "case_pattern_matches (c # cs)"
  proof
    assume a: "isupper_AZ c \<and> (\<exists>j < length cs. isdigit (cs ! j) \<and> (\<forall>k < j. cs ! k \<noteq> CHR 0x0A))"
    then obtain j where j: "j < length cs" "isdigit (cs ! j)" "\<forall>k < j. cs ! k \<noteq> CHR 0x0A"
      by blast
    have "\<forall>k. 0 < k \<and> k < Suc j \<longrightarrow> (c # cs) ! k \<noteq> CHR 0x0A"
    proof (intro allI impI)
      fix k assume "0 < k \<and> k < Suc j"
      then show "(c # cs) ! k \<noteq> CHR 0x0A" using j(3) by (cases k) auto
    qed
    with a j show ?thesis
      unfolding case_pattern_matches_def by (intro exI [of _ 0] exI [of _ "Suc j"]) simp
  next
    assume "case_pattern_matches cs"
    then obtain i j where ij: "i < j" "j < length cs" "isupper_AZ (cs ! i)" "isdigit (cs ! j)"
      "\<forall>k. i < k \<and> k < j \<longrightarrow> cs ! k \<noteq> CHR 0x0A"
      unfolding case_pattern_matches_def by blast
    have "\<forall>k. Suc i < k \<and> k < Suc j \<longrightarrow> (c # cs) ! k \<noteq> CHR 0x0A"
    proof (intro allI impI)
      fix k assume "Suc i < k \<and> k < Suc j"
      then show "(c # cs) ! k \<noteq> CHR 0x0A" using ij(5) by (cases k) auto
    qed
    with ij show ?thesis
      unfolding case_pattern_matches_def by (intro exI [of _ "Suc i"] exI [of _ "Suc j"]) simp
  qed
qed

lemma search_case_pattern_iff: "search_case_pattern s \<longleftrightarrow> case_pattern_matches s"
proof (induction s)
  case Nil
  then show ?case by (simp add: case_pattern_matches_def)
next
  case (Cons c cs)
  then show ?case by (simp add: case_pattern_matches_Cons digit_on_line_iff)
qed

lemma split_chr_nonempty: "split_chr c s \<noteq> []"
  by (induction s) (auto split: list.splits)

lemma split_chr_first:
  "split_chr c s = p # ps \<Longrightarrow> p = takeWhile (\<lambda>x. x \<noteq> c) s"
  by (induction s arbitrary: p ps) (auto simp: split_chr_nonempty split: if_splits list.splits)

lemma title_case_number_iff:
  "title_case_number sp = Some t \<longleftrightarrow>
     (\<exists>title_tag. find_tag sp ''title'' [] = Some title_tag \<and>
        t = strip (takeWhile (\<lambda>x. x \<noteq> CHR ''-'') (get_text title_tag)) \<and>
        case_pattern_matches t)"
proof (cases "find_tag sp ''title'' []")
  case None
  then show ?thesis by (simp add: title_case_number_def)
next
  case (Some title_tag)
  obtain p ps where sp: "split_chr CHR ''-'' (get_text title_tag) = p # ps"
    using split_chr_nonempty by (cases "split_chr CHR ''-'' (get_text title_tag)") auto
  then have "p = takeWhile (\<lambda>x. x \<noteq> CHR ''-'') (get_text title_tag)" by (rule split_chr_first)
  with Some sp show ?thesis
    by (auto simp: title_case_number_def Let_def search_case_pattern_iff)
qed

lemma takeWhile_until: "x \<notin> set g \<Longrightarrow> takeWhile (\<lambda>y. y \<noteq> x) (g @ x # post) = g"
  by (induction g) auto

lemma dropWhile_until: "x \<notin> set g \<Longrightarrow> dropWhile (\<lambda>y. y \<noteq> x) (g @ x # post) = x # post"
  by (induction g) auto

lemma dropWhile_head:
  "dropWhile (\<lambda>y. y \<noteq> x) xs \<noteq> [] \<Longrightarrow> \<exists>post. dropWhile (\<lambda>y. y \<noteq> x) xs = x # post"
  by (induction xs) (auto split: if_splits)

lemma quoted_at_head:
  "quoted_at p [] g s \<longleftrightarrow>
     prefix (p @ [CHR 0x27]) s \<and>
     g = takeWhile (\<lambda>x. x \<noteq> CHR 0x27) (drop (length p + 1) s) \<and> g \<noteq> [] \<and>
     dropWhile (\<lambda>x. x \<noteq> CHR 0x27) (drop (length p + 1) s) \<noteq> []"
proof
  assume "quoted_at p [] g s"
  then obtain post where g: "g \<noteq> []" "CHR 0x27 \<notin> set g"
    and s: "s = p @ [CHR 0x27] @ g @ [CHR 0x27] @ post"
    unfolding quoted_at_def by auto
  have pre: "prefix (p @ [CHR 0x27]) s" unfolding s by simp
  have rest: "drop (length p + 1) s = g @ CHR 0x27 # post" unfolding s by simp
  have "takeWhile (\<lambda>x. x \<noteq> CHR 0x27) (g @ CHR 0x27 # post) = g"
    using g(2) by (rule takeWhile_until)
  moreover have "dropWhile (\<lambda>x. x \<noteq> CHR 0x27) (g @ CHR 0x27 # post) = CHR 0x27 # post"
    using g(2) by (rule dropWhile_until)
  ultimately show "prefix (p @ [CHR 0x27]) s \<and>
     g = takeWhile (\<lambda>x. x \<noteq> CHR 0x27) (drop (length p + 1) s) \<and> g \<noteq> [] \<and>
     dropWhile (\<lambda>x. x \<noteq> CHR 0x27) (drop (length p + 1) s) \<noteq> []"
    using pre g(1) unfolding rest by simp
next
  define rest where "rest = drop (length p + 1) s"
  assume a: "prefix (p @ [CHR 0x27]) s \<and>
     g = takeWhile (\<lambda>x. x \<noteq> CHR 0x27) (drop (length p + 1) s) \<and> g \<noteq> [] \<and>
     dropWhile (\<lambda>x. x \<noteq> CHR 0x27) (drop (length p + 1) s) \<noteq> []"
  note pre = a [THEN conjunct1]
  note tw = a [THEN conjunct2, THEN conjunct1, symmetric, folded rest_def]
  note ne = a [THEN conjunct2, THEN conjunct2, THEN conjunct1]
  note dw = a [THEN conjunct2, THEN conjunct2, THEN conjunct2, folded rest_def]
  from dropWhile_head [OF dw]
  obtain post where post: "dropWhile (\<lambda>x. x \<noteq> CHR 0x27) rest = CHR 0x27 # post" ..
  from pre [unfolded prefix_def] obtain tl where tl: "s = (p @ [CHR 0x27]) @ tl" ..
  have "rest = tl" unfolding rest_def tl by simp
  with tl have s: "s = p @ [CHR 0x27] @ rest" by simp
  have "takeWhile (\<lambda>x. x \<noteq> CHR 0x27) rest @ dropWhile (\<lambda>x. x \<noteq> CHR 0x27) rest = rest"
    by (rule takeWhile_dropWhile_id)
  then have r: "rest = g @ [CHR 0x27] @ post" unfolding tw post by simp
  have nq: "CHR 0x27 \<notin> set g"
  proof
    assume "CHR 0x27 \<in> set g"
    then have "CHR 0x27 \<in> set (takeWhile (\<lambda>x. x \<noteq> CHR 0x27) rest)" unfolding tw .
    then have "CHR 0x27 \<noteq> CHR 0x27" by (rule set_takeWhileD [THEN conjunct2])
    then show False by simp
  qed
  have eq: "s = [] @ p @ [CHR 0x27] @ g @ [CHR 0x27] @ post" unfolding s r by simp
  show "quoted_at p [] g s"
    unfolding quoted_at_def
  proof (intro conjI)
    show "g \<noteq> []" by (rule ne)
    show "CHR 0x27 \<notin> set g" by (rule nq)
    show "\<exists>post. s = [] @ p @ [CHR 0x27] @ g @ [CHR 0x27] @ post" using eq by (rule exI)
  qed
qed

lemma quoted_at_Nil: "\<not> quoted_at p pre g []"
  by (simp add: quoted_at_def)

lemma quoted_at_Cons: "quoted_at p (c # pre) g (c' # cs) \<longleftrightarrow> c = c' \<and> quoted_at p pre g cs"
  by (auto simp: quoted_at_def)

lemma search_quoted_Cons:
  "search_quoted p (c # cs) =
     (if \<exists>g. quoted_at p [] g (c # cs)
      then Some (takeWhile (\<lambda>x. x \<noteq> CHR 0x27) (drop (length p + 1) (c # cs)))
      else search_quoted p cs)"
  by (simp add: quoted_at_head Let_def del: drop_Suc_Cons)

lemma search_quoted_leftmost:
  "search_quoted p s = Some g \<longleftrightarrow> leftmost_quoted p g s"
proof (induction s)
  case Nil
  then show ?case by (simp add: leftmost_quoted_def quoted_at_Nil)
next
  case (Cons c cs)
  show ?case
  proof (cases "\<exists>g0. quoted_at p [] g0 (c # cs)")
    case True
    then obtain g0 where g0: "quoted_at p [] g0 (c # cs)" by blast
    then have eq: "g0 = takeWhile (\<lambda>x. x \<noteq> CHR 0x27) (drop (length p + 1) (c # cs))"
      by (simp add: quoted_at_head del: drop_Suc_Cons)
    with True have sq: "search_quoted p (c # cs) = Some g0"
      by (simp only: search_quoted_Cons if_True)
    have "leftmost_quoted p g (c # cs) \<longleftrightarrow> g = g0"
    proof
      assume "leftmost_quoted p g (c # cs)"
      then obtain pre where pre: "quoted_at p pre g (c # cs)"
        "\<forall>pre' g'. quoted_at p pre' g' (c # cs) \<longrightarrow> length pre \<le> length pre'"
        unfolding leftmost_quoted_def by blast
      from pre(2) g0 have "length pre \<le> length ([] :: string)" by blast
      then have "pre = []" by simp
      with pre(1) have "g = takeWhile (\<lambda>x. x \<noteq> CHR 0x27) (drop (length p + 1) (c # cs))"
        by (simp add: quoted_at_head del: drop_Suc_Cons)
      with eq show "g = g0" by simp
    next
      assume "g = g0"
      with g0 show "leftmost_quoted p g (c # cs)"
        unfolding leftmost_quoted_def by (intro exI [of _ "[]"]) simp
    qed
    with sq show ?thesis by auto
  next
    case False
    then have sq: "search_quoted p (c # cs) = search_quoted p cs"
      by (simp only: search_quoted_Cons if_False)
    have shift: "quoted_at p pre g' (c # cs) \<longleftrightarrow> (\<exists>pre'. pre = c # pre' \<and> quoted_at p pre' g' cs)"
      for pre g'
    proof (cases pre)
      case Nil
      with False show ?thesis by auto
    next
      case (Cons a pre')
      then show ?thesis by (auto simp: quoted_at_Cons)
    qed
    have "leftmost_quoted p g (c # cs) \<longleftrightarrow> leftmost_quoted p g cs"
    proof
      assume "leftmost_quoted p g (c # cs)"
      then obtain pre where pre: "quoted_at p pre g (c # cs)"
        "\<forall>pre' g'. quoted_at p pre' g' (c # cs) \<longrightarrow> length pre \<le> length pre'"
        unfolding leftmost_quoted_def by blast
      from pre(1) obtain pre0 where pre0: "pre = c # pre0" "quoted_at p pre0 g cs"
        using shift by blast
      have "\<forall>pre' g'. quoted_at p pre' g' cs \<longrightarrow> length pre0 \<le> length pre'"
      proof (intro allI impI)
        fix pre' g' assume "quoted_at p pre' g' cs"
        then have "quoted_at p (c # pre') g' (c # cs)" by (simp add: quoted_at_Cons)
        with pre(2) have "length pre \<le> length (c # pre')" by blast
        with pre0 show "length pre0 \<le> length pre'" by simp
      qed
      with pre0 show "leftmost_quoted p g cs" unfolding leftmost_quoted_def by blast
    next
      assume "leftmost_quoted p g cs"
      then obtain pre0 where pre0: "quoted_at p pre0 g cs"
        "\<forall>pre' g'. quoted_at p pre' g' cs \<longrightarrow> length pre0 \<le> length pre'"
        unfolding leftmost_quoted_def by blast
      have "\<forall>pre' g'. quoted_at p pre' g' (c # cs) \<longrightarrow> length (c # pre0) \<le> length pre'"
      proof (intro allI impI)
        fix pre' g' assume "quoted_at p pre' g' (c # cs)"
        then obtain pre1 where "pre' = c # pre1" "quoted_at p pre1 g' cs" using shift by blast
        with pre0(2) show "length (c # pre0) \<le> length pre'" by auto
      qed
      moreover from pre0(1) have "quoted_at p (c # pre0) g (c # cs)" by (simp add: quoted_at_Cons)
      ultimately show "leftmost_quoted p g (c # cs)" unfolding leftmost_quoted_def by blast
    qed
    with sq Cons.IH show ?thesis by simp
  qed
qed

lemma search_quoted_None: "search_quoted p s = None \<longleftrightarrow> \<not> (\<exists>pre g. quoted_at p pre g s)"
proof (induction s)
  case Nil
  then show ?case by (simp add: quoted_at_Nil)
next
  case (Cons c cs)
  show ?case
  proof (cases "\<exists>g0. quoted_at p [] g0 (c # cs)")
    case True
    then have "search_quoted p (c # cs) \<noteq> None" by (simp only: search_quoted_Cons if_True) simp
    with True show ?thesis by blast
  next
    case False
    then have sq: "search_quoted p (c # cs) = search_quoted p cs"
      by (simp only: search_quoted_Cons if_False)
    have "(\<exists>pre g. quoted_at p pre g (c # cs)) \<longleftrightarrow> (\<exists>pre g. quoted_at p pre g cs)"
    proof
      assume "\<exists>pre g. quoted_at p pre g (c # cs)"
      then obtain pre g where m: "quoted_at p pre g (c # cs)" by blast
      with False obtain a pre' where "pre = a # pre'" by (cases pre) auto
      with m show "\<exists>pre g. quoted_at p pre g cs" by (auto simp: quoted_at_Cons)
    next
      assume "\<exists>pre g. quoted_at p pre g cs"
      then obtain pre g where "quoted_at p pre g cs" by blast
      then have "quoted_at p (c # pre) g (c # cs)" by (simp add: quoted_at_Cons)
      then show "\<exists>pre g. quoted_at p pre g (c # cs)" by blast
    qed
    with sq Cons.IH show ?thesis by simp
  qed
qed

lemma first_script_match_iff:
  "first_script_match scripts = Some g \<longleftrightarrow>
     (\<exists>before script after. scripts = before @ script # after \<and>
        script_match script = Some g \<and> (\<forall>x \<in> set before. script_match x = None))"
proof (induction scripts)
  case Nil
  then show ?case by simp
next
  case (Cons sc scripts)
  show ?case
  proof (cases "script_match sc")
    case None
    have "(\<exists>before script after. sc # scripts = before @ script # after \<and>
        script_match script = Some g \<and> (\<forall>x \<in> set before. script_match x = None)) \<longleftrightarrow>
      (\<exists>before script after. scripts = before @ script # after \<and>
        script_match script = Some g \<and> (\<forall>x \<in> set before. script_match x = None))"
    proof
      assume "\<exists>before script after. sc # scripts = before @ script # after \<and>
        script_match script = Some g \<and> (\<forall>x \<in> set before. script_match x = None)"
      then obtain before script after where b: "sc # scripts = before @ script # after"
        "script_match script = Some g" "\<forall>x \<in> set before. script_match x = None" by blast
      with None obtain b' where "before = sc # b'" by (cases before) auto
      with b show "\<exists>before script after. scripts = before @ script # after \<and>
        script_match script = Some g \<and> (\<forall>x \<in> set before. script_match x = None)"
        by auto
    next
      assume "\<exists>before script after. scripts = before @ script # after \<and>
        script_match script = Some g \<and> (\<forall>x \<in> set before. script_match x = None)"
      then obtain before script after where b: "scripts = before @ script # after"
        "script_match script = Some g" "\<forall>x \<in> set before. script_match x = None" by blast
      with None have "sc # scripts = (sc # before) @ script # after \<and>
        script_match script = Some g \<and> (\<forall>x \<in> set (sc # before). script_match x = None)"
        by simp
      then show "\<exists>before script after. sc # scripts = before @ script # after \<and>
        script_match script = Some g \<and> (\<forall>x \<in> set before. script_match x = None)"
        by blast
    qed
    with None Cons.IH show ?thesis by simp
  next
    case (Some g0)
    have "(\<exists>before script after. sc # scripts = before @ script # after \<and>
        script_match script = Some g \<and> (\<forall>x \<in> set before. script_match x = None)) \<longleftrightarrow> g = g0"
    proof
      assume "\<exists>before script after. sc # scripts = before @ script # after \<and>
        script_match script = Some g \<and> (\<forall>x \<in> set before. script_match x = None)"
      then obtain before script after where b: "sc # scripts = before @ script # after"
        "script_match script = Some g" "\<forall>x \<in> set before. script_match x = None" by blast
      show "g = g0"
      proof (cases before)
        case Nil
        with b Some show ?thesis by simp
      next
        case (Cons a b')
        with b have "sc \<in> set before" by simp
        with b(3) Some show ?thesis by auto
      qed
    next
      assume "g = g0"
      with Some have "sc # scripts = [] @ sc # scripts \<and> script_match sc = Some g \<and>
        (\<forall>x \<in> set []. script_match x = None)" by simp
      then show "\<exists>before script after. sc # scripts = before @ script # after \<and>
        script_match script = Some g \<and> (\<forall>x \<in> set before. script_match x = None)"
        by blast
    qed
    with Some show ?thesis by auto
  qed
qed

lemma script_match_iff:
  "script_match script = Some g \<longleftrightarrow>
     (\<exists>s. node_string script = Some s \<and> leftmost_quoted ''var caseNumber = '' g s)"
proof (cases "node_string script")
  case None
  then show ?thesis by (simp add: script_match_def)
next
  case (Some s)
  show ?thesis
  proof (cases "s = []")
    case True
    with Some show ?thesis
      by (simp add: script_match_def leftmost_quoted_def quoted_at_Nil)
  next
    case False
    with Some show ?thesis
      by (simp add: script_match_def or_empty_def search_caseNumber_def search_quoted_leftmost)
  qed
qed

lemma first_script_match_None:
  "first_script_match scripts = None \<longleftrightarrow> (\<forall>x \<in> set scripts. script_match x = None)"
  by (induction scripts) (auto split: option.splits)

lemma script_match_None:
  "script_match x = None \<longleftrightarrow>
     (\<forall>s g. node_string x = Some s \<longrightarrow> \<not> leftmost_quoted ''var caseNumber = '' g s)"
proof -
  have "script_match x = None \<longleftrightarrow> (\<forall>g. script_match x \<noteq> Some g)"
    by (cases "script_match x") simp_all
  also have "\<dots> \<longleftrightarrow> (\<forall>g. \<not> (\<exists>s. node_string x = Some s \<and> leftmost_quoted ''var caseNumber = '' g s))"
    by (simp only: script_match_iff)
  also have "\<dots> \<longleftrightarrow> (\<forall>s g. node_string x = Some s \<longrightarrow> \<not> leftmost_quoted ''var caseNumber = '' g s)"
    by auto
  finally show ?thesis .
qed

lemma script_tier_Some:
  "script_tier sp = [(''case_number'', PStr g)] \<longleftrightarrow>
     first_script_match (find_all sp [''script''] []) = Some g"
  by (simp add: script_tier_def split: option.splits)

lemma script_tier_Nil:
  "script_tier sp = [] \<longleftrightarrow> first_script_match (find_all sp [''script''] []) = None"
  by (simp add: script_tier_def split: option.splits)

lemma script_tier_iff:
  "script_tier sp = [(''case_number'', PStr g)] \<longleftrightarrow>
     (\<exists>before script after s.
        find_all sp [''script''] [] = before @ script # after \<and>
        node_string script = Some s \<and> leftmost_quoted ''var caseNumber = '' g s \<and>
        (\<forall>x \<in> set before. \<forall>s' g'. node_string x = Some s' \<longrightarrow>
           \<not> leftmost_quoted ''var caseNumber = '' g' s'))"
  unfolding script_tier_Some first_script_match_iff script_match_iff script_match_None
  by auto

lemma script_tier_empty_iff:
  "script_tier sp = [] \<longleftrightarrow>
     (\<forall>x \<in> set (find_all sp [''script''] []). \<forall>s g. node_string x = Some s \<longrightarrow>
        \<not> leftmost_quoted ''var caseNumber = '' g s)"
  unfolding script_tier_Nil first_script_match_None script_match_None ..

lemma detail_row_items_iff:
  "(k, v) \<in> set (detail_row_items row) \<longleftrightarrow>
     (\<exists>c0 c1 rest. find_all row [''th'', ''td''] [] = c0 # c1 # rest \<and>
        rstrip_chr CHR '':'' (get_text c0) \<noteq> [] \<and> get_text c1 \<noteq> [] \<and>
        k = snake_key (rstrip_chr CHR '':'' (get_text c0)) \<and> v = PStr (get_text c1))"
proof (cases "find_all row [''th'', ''td''] []")
  case Nil
  then show ?thesis by (simp add: detail_row_items_def)
next
  case (Cons c0 l)
  show ?thesis
  proof (cases l)
    case Nil
    with Cons show ?thesis by (simp add: detail_row_items_def)
  next
    case (Cons c1 rest)
    with \<open>find_all row [''th'', ''td''] [] = c0 # l\<close> show ?thesis
      by (auto simp: detail_row_items_def Let_def)
  qed
qed

lemma detail_items_iff:
  "(k, v) \<in> set (detail_items sp) \<longleftrightarrow>
     (\<exists>table row c0 c1 rest.
        table \<in> set (find_all sp [''table''] [(''class'', ''table'')]) \<and>
        get_attr table ''id'' \<noteq> Some (AStr ''gridDockets'') \<and>
        row \<in> set (find_all table [''tr''] []) \<and>
        find_all row [''th'', ''td''] [] = c0 # c1 # rest \<and>
        rstrip_chr CHR '':'' (get_text c0) \<noteq> [] \<and> get_text c1 \<noteq> [] \<and>
        k = snake_key (rstrip_chr CHR '':'' (get_text c0)) \<and> v = PStr (get_text c1))"
proof -
  have "(k, v) \<in> set (detail_items sp) \<longleftrightarrow>
      (\<exists>table \<in> set (find_all sp [''table''] [(''class'', ''table'')]).
         get_attr table ''id'' \<noteq> Some (AStr ''gridDockets'') \<and>
         (\<exists>row \<in> set (find_all table [''tr''] []). (k, v) \<in> set (detail_row_items row)))"
    by (auto simp: detail_items_def detail_table_items_def split: if_splits)
  then show ?thesis unfolding detail_row_items_iff by blast
qed

section \<open>Search\<close>

text \<open>
  C1. The response to the search form is classified by the first test that holds: a
  \<open>table\<close> with id \<open>gridSearchResults\<close> in the body gives \<open>search_results\<close>
  (ResultsTable) whatever the final URL is; otherwise a final URL that contains
  \<open>/CourtCase.aspx/Details/\<close> gives \<open>case_details\<close> (CaseDetailsRedirect); otherwise the
  result is \<open>unknown\<close> (NoResults) with the fixed message. The three cases exclude each
  other and cover every response, and a search that returns, returns the classification
  of the response to its POST.
\<close>

theorem search_classification:
  "(has_results_table w resp \<longrightarrow>
      success (classify_response w resp) \<and>
      response_type (classify_response w resp) = ''search_results'') \<and>
   (\<not> has_results_table w resp \<and> is_case_details resp \<longrightarrow>
      success (classify_response w resp) \<and>
      response_type (classify_response w resp) = ''case_details'') \<and>
   (\<not> has_results_table w resp \<and> \<not> is_case_details resp \<longrightarrow>
      \<not> success (classify_response w resp) \<and>
      response_type (classify_response w resp) = ''unknown'' \<and>
      message (classify_response w resp) = Some ''No results found or search failed'') \<and>
   (\<forall>r c'. search w a c = (Inr r, c') \<longrightarrow>
      r = classify_response w
            (fst (session_request w (search_request (snd (ensure_token w c)) a)
                    (snd (ensure_token w c)))))"
  by (auto simp: classify_response_def search_def split: if_splits prod.splits sum.splits)

theorem search_classification_witness:
  "response_type (classify_response (example_world [] []) results_response) = ''search_results'' \<and>
   response_type (classify_response (example_world [] []) details_response) = ''case_details'' \<and>
   response_type (classify_response (example_world [] []) empty_response) = ''unknown'' \<and>
   (\<exists>r c'. search (example_world ''results'' []) plain_args cached_client = (Inr r, c') \<and>
      response_type r = ''search_results'')"
proof -
  let ?w = "example_world [] []"
  let ?v = "example_world ''results'' []"
  have a: "has_results_table ?w results_response" by code_simp
  have b: "\<not> has_results_table ?w details_response \<and> is_case_details details_response"
    by code_simp
  have c: "\<not> has_results_table ?w empty_response \<and> \<not> is_case_details empty_response"
    by code_simp
  have "case fst (search ?v plain_args cached_client) of Inl e \<Rightarrow> False | Inr r \<Rightarrow> True"
    by code_simp
  then obtain r c' where s: "search ?v plain_args cached_client = (Inr r, c')"
    by (cases "search ?v plain_args cached_client"; cases "fst (search ?v plain_args cached_client)") auto
  have t: "has_results_table ?v
             (fst (session_request ?v (search_request (snd (ensure_token ?v cached_client)) plain_args)
                     (snd (ensure_token ?v cached_client))))"
    by code_simp
  from search_classification [of ?v _ plain_args cached_client] s
  have "r = classify_response ?v
              (fst (session_request ?v (search_request (snd (ensure_token ?v cached_client)) plain_args)
                      (snd (ensure_token ?v cached_client))))"
    by blast
  with search_classification [of ?v
         "fst (session_request ?v (search_request (snd (ensure_token ?v cached_client)) plain_args)
                (snd (ensure_token ?v cached_client)))" plain_args cached_client] t
  have "response_type r = ''search_results''" by simp
  with s a b c search_classification [of ?w results_response plain_args cached_client]
    search_classification [of ?w details_response plain_args cached_client]
    search_classification [of ?w empty_response plain_args cached_client]
  show ?thesis by blast
qed




text \<open>
  C6. Once the session holds a non-empty token, any number of searches leave the token
  and the cookie name as they are, and send one POST each and nothing else: the landing
  page is not requested again.
\<close>

theorem token_bootstrap_once:
  assumes "truthy (csrf_token_body c)"
  shows "csrf_token_body (searches w args c) = csrf_token_body c \<and>
         csrf_cookie_name (searches w args c) = csrf_cookie_name c \<and>
         requests_sent (searches w args c) = requests_sent c @ map (search_request c) args \<and>
         search_page_request c \<notin> set (map (search_request c) args)"
  using searches_cached [OF assms, of w args]
  by (auto simp: search_request_def search_page_request_def)

theorem token_bootstrap_once_witness:
  "csrf_token_body (searches (example_world ''results'' []) [plain_args, override_args] cached_client)
     = Some ''tok1'' \<and>
   length (requests_sent
     (searches (example_world ''results'' []) [plain_args, override_args] cached_client)) = 2"
proof -
  have t: "truthy (csrf_token_body cached_client)"
    by (simp add: cached_client_def fresh_client_def)
  from token_bootstrap_once [OF t, of "example_world ''results'' []" "[plain_args, override_args]"]
  show ?thesis by (simp add: cached_client_def fresh_client_def)
qed

section \<open>Case details page\<close>

text \<open>
  C3, as stated, fails on the docket history: for a page without the docket table
  \<open>parse_case_details\<close> returns a record that has no \<open>docket_history\<close> key at all, not
  one that holds the empty sequence.
\<close>

theorem docket_history_key_omitted:
  "find_tag heading_page ''table'' [(''id'', ''gridDockets'')] = None \<and>
   map_of (parse_case_details heading_page) ''docket_history'' \<noteq> Some (PList []) \<and>
   map_of (parse_case_details heading_page) ''docket_history'' = None"
  by code_simp

text \<open>
  C3, amended. \<open>parse_case_details\<close> is total: it returns a record for every document.
  When the docket table is absent the docket block writes nothing, so the key
  \<open>docket_history\<close> is omitted; likewise \<open>parties\<close> and \<open>charges\<close> when their section
  is absent. Such a key is then present only if a row of a generic detail table carries
  that label, and it holds that row's string, never a sequence.
\<close>

theorem optional_markup_absent:
  "(find_tag sp ''table'' [(''id'', ''gridDockets'')] = None \<longrightarrow>
      (\<forall>v. map_of (parse_case_details sp) ''docket_history'' = Some v \<longrightarrow> is_string v) \<and>
      (''docket_history'' \<notin> fst ` set (detail_items sp) \<longrightarrow>
         map_of (parse_case_details sp) ''docket_history'' = None)) \<and>
   (find_section sp ''parties'' = None \<longrightarrow>
      (\<forall>v. map_of (parse_case_details sp) ''parties'' = Some v \<longrightarrow> is_string v) \<and>
      (''parties'' \<notin> fst ` set (detail_items sp) \<longrightarrow>
         map_of (parse_case_details sp) ''parties'' = None)) \<and>
   (find_section sp ''charges'' = None \<longrightarrow>
      (\<forall>v. map_of (parse_case_details sp) ''charges'' = Some v \<longrightarrow> is_string v) \<and>
      (''charges'' \<notin> fst ` set (detail_items sp) \<longrightarrow>
         map_of (parse_case_details sp) ''charges'' = None))"
proof (intro conjI impI allI)
  fix v
  assume "find_tag sp ''table'' [(''id'', ''gridDockets'')] = None"
    and "map_of (parse_case_details sp) ''docket_history'' = Some v"
  then have "map_of (detail_tables sp (store_case_number sp)) ''docket_history'' = Some v"
    by (simp add: parse_case_details_def docket_block_lookup charges_block_lookup
          parties_block_lookup split: option.splits)
  then show "is_string v" by (rule labelled_value_string [rotated]) simp
next
  assume "find_tag sp ''table'' [(''id'', ''gridDockets'')] = None"
    and "''docket_history'' \<notin> fst ` set (detail_items sp)"
  then show "map_of (parse_case_details sp) ''docket_history'' = None"
    by (simp add: parse_case_details_def docket_block_lookup charges_block_lookup
          parties_block_lookup labelled_lookup_other map_of_rev_None split: option.splits)
next
  fix v
  assume "find_section sp ''parties'' = None"
    and "map_of (parse_case_details sp) ''parties'' = Some v"
  then have "map_of (detail_tables sp (store_case_number sp)) ''parties'' = Some v"
    by (simp add: parse_case_details_def docket_block_lookup charges_block_lookup
          parties_block_lookup split: option.splits)
  then show "is_string v" by (rule labelled_value_string [rotated]) simp
next
  assume "find_section sp ''parties'' = None"
    and "''parties'' \<notin> fst ` set (detail_items sp)"
  then show "map_of (parse_case_details sp) ''parties'' = None"
    by (simp add: parse_case_details_def docket_block_lookup charges_block_lookup
          parties_block_lookup labelled_lookup_other map_of_rev_None split: option.splits)
next
  fix v
  assume "find_section sp ''charges'' = None"
    and "map_of (parse_case_details sp) ''charges'' = Some v"
  then have "map_of (detail_tables sp (store_case_number sp)) ''charges'' = Some v"
    by (simp add: parse_case_details_def docket_block_lookup charges_block_lookup
          parties_block_lookup split: option.splits)
  then show "is_string v" by (rule labelled_value_string [rotated]) simp
next
  assume "find_section sp ''charges'' = None"
    and "''charges'' \<notin> fst ` set (detail_items sp)"
  then show "map_of (parse_case_details sp) ''charges'' = None"
    by (simp add: parse_case_details_def docket_block_lookup charges_block_lookup
          parties_block_lookup labelled_lookup_other map_of_rev_None split: option.splits)
qed

theorem optional_markup_absent_witness:
  "map_of (parse_case_details titled_page) ''docket_history'' = None \<and>
   map_of (parse_case_details titled_page) ''parties'' = None \<and>
   map_of (parse_case_details titled_page) ''charges'' = None"
proof -
  have "find_tag titled_page ''table'' [(''id'', ''gridDockets'')] = None"
    and "find_section titled_page ''parties'' = None"
    and "find_section titled_page ''charges'' = None"
    and "''docket_history'' \<notin> fst ` set (detail_items titled_page)"
    and "''parties'' \<notin> fst ` set (detail_items titled_page)"
    and "''charges'' \<notin> fst ` set (detail_items titled_page)"
    by code_simp+
  with optional_markup_absent [of titled_page] show ?thesis by blast
qed

text \<open>
  C7, as stated, fails on the record: the generic detail tables are read after the case
  number is recovered and write into the same dictionary, so a row labelled
  \<open>Case Number\<close> replaces the value that the title gave.
\<close>

theorem detail_row_overrides_case_number:
  "title_case_number titled_page = Some ''21TR1'' \<and>
   map_of (parse_case_details titled_page) ''case_number'' = Some (PStr ''99ZZ9'')"
  by code_simp

text \<open>
  C7, amended. The recovery stores the case number of the first tier that yields a
  non-empty value and looks no further: the title's text before the first dash,
  stripped, if an upper-case ASCII letter in it is followed, later and before any
  newline, by a digit; else the text of the first \<open>h2\<close> with class \<open>case-heading\<close>;
  else group 1 of the leftmost match of \<open>var caseNumber = '...'\<close> in the first script
  whose string has a match; else nothing. The returned record carries what the recovery
  stored unless the detail tables write the key \<open>case_number\<close>: a row with two cells or
  more, in a table with class \<open>table\<close> other than the docket table, whose value is not
  empty and whose non-empty label normalises to \<open>case_number\<close>. Then the record carries
  the value of the last such row.
\<close>

theorem case_number_recovery:
  "store_case_number sp =
     (case title_case_number sp of
        Some t \<Rightarrow> [(''case_number'', PStr t)]
      | None \<Rightarrow>
          (case find_tag sp ''h2'' [(''class'', ''case-heading'')] of
             Some case_heading \<Rightarrow>
               if get_text case_heading \<noteq> []
               then [(''case_number'', PStr (get_text case_heading))]
               else script_tier sp
           | None \<Rightarrow> script_tier sp)) \<and>
   (\<forall>t. title_case_number sp = Some t \<longleftrightarrow>
      (\<exists>title_tag. find_tag sp ''title'' [] = Some title_tag \<and>
         t = strip (takeWhile (\<lambda>x. x \<noteq> CHR ''-'') (get_text title_tag)) \<and>
         case_pattern_matches t)) \<and>
   (\<forall>g. script_tier sp = [(''case_number'', PStr g)] \<longleftrightarrow>
      (\<exists>before script after s.
         find_all sp [''script''] [] = before @ script # after \<and>
         node_string script = Some s \<and> leftmost_quoted ''var caseNumber = '' g s \<and>
         (\<forall>x \<in> set before. \<forall>s' g'. node_string x = Some s' \<longrightarrow>
            \<not> leftmost_quoted ''var caseNumber = '' g' s'))) \<and>
   (script_tier sp = [] \<longleftrightarrow>
      (\<forall>x \<in> set (find_all sp [''script''] []). \<forall>s g. node_string x = Some s \<longrightarrow>
         \<not> leftmost_quoted ''var caseNumber = '' g s)) \<and>
   map_of (parse_case_details sp) ''case_number'' =
     (case map_of (rev (detail_items sp)) ''case_number'' of
        Some v \<Rightarrow> Some v
      | None \<Rightarrow> map_of (store_case_number sp) ''case_number'') \<and>
   (\<forall>k v. (k, v) \<in> set (detail_items sp) \<longleftrightarrow>
      (\<exists>table row c0 c1 rest.
         table \<in> set (find_all sp [''table''] [(''class'', ''table'')]) \<and>
         get_attr table ''id'' \<noteq> Some (AStr ''gridDockets'') \<and>
         row \<in> set (find_all table [''tr''] []) \<and>
         find_all row [''th'', ''td''] [] = c0 # c1 # rest \<and>
         rstrip_chr CHR '':'' (get_text c0) \<noteq> [] \<and> get_text c1 \<noteq> [] \<and>
         k = snake_key (rstrip_chr CHR '':'' (get_text c0)) \<and> v = PStr (get_text c1)))"
  by (intro conjI allI store_three_tiers title_case_number_iff script_tier_iff
        script_tier_empty_iff parse_case_number_lookup detail_items_iff)

theorem case_number_recovery_witness:
  "map_of (parse_case_details all_tiers_page) ''case_number'' = Some (PStr ''99TR268487'') \<and>
   map_of (parse_case_details heading_script_page) ''case_number'' = Some (PStr ''22TR2'') \<and>
   map_of (parse_case_details script_page) ''case_number'' = Some (PStr ''99TR268487'') \<and>
   map_of (parse_case_details no_number_page) ''case_number'' = None \<and>
   map_of (parse_case_details script_cell_page) ''case_number'' = Some (PStr ''21TR1'') \<and>
   map_of (parse_case_details titled_page) ''case_number'' = Some (PStr ''99ZZ9'') \<and>
   case_pattern_matches ''99TR268487'' \<and> \<not> case_pattern_matches ''abc123'' \<and>
   \<not> case_pattern_matches ''DOE vs ROE'' \<and>
   (\<exists>s. leftmost_quoted ''var caseNumber = '' ''99TR268487'' s)"
proof -
  note tiers = case_number_recovery [THEN conjunct1]
  note title = case_number_recovery [THEN conjunct2, THEN conjunct1, rule_format]
  note script = case_number_recovery [THEN conjunct2, THEN conjunct2, THEN conjunct1, rule_format]
  note lookup = case_number_recovery [THEN conjunct2, THEN conjunct2, THEN conjunct2,
      THEN conjunct2, THEN conjunct1]
  have "(case title_case_number all_tiers_page of
              Some t \<Rightarrow> [(''case_number'', PStr t)]
            | None \<Rightarrow>
                (case find_tag all_tiers_page ''h2'' [(''class'', ''case-heading'')] of
                   Some case_heading \<Rightarrow>
                     if get_text case_heading \<noteq> []
                     then [(''case_number'', PStr (get_text case_heading))]
                     else script_tier all_tiers_page
                 | None \<Rightarrow> script_tier all_tiers_page)) = [(''case_number'', PStr ''99TR268487'')]"
    by code_simp
  with tiers [of all_tiers_page] have s1: "store_case_number all_tiers_page = [(''case_number'', PStr ''99TR268487'')]"
    by (rule trans)
  have d1: "map_of (rev (detail_items all_tiers_page)) ''case_number'' = None" by code_simp
  have r1: "map_of (parse_case_details all_tiers_page) ''case_number'' = Some (PStr ''99TR268487'')"
    using lookup [of all_tiers_page] by (simp add: d1 s1)
  have "(case title_case_number heading_script_page of
              Some t \<Rightarrow> [(''case_number'', PStr t)]
            | None \<Rightarrow>
                (case find_tag heading_script_page ''h2'' [(''class'', ''case-heading'')] of
                   Some case_heading \<Rightarrow>
                     if get_text case_heading \<noteq> []
                     then [(''case_number'', PStr (get_text case_heading))]
                     else script_tier heading_script_page
                 | None \<Rightarrow> script_tier heading_script_page)) = [(''case_number'', PStr ''22TR2'')]"
    by code_simp
  with tiers [of heading_script_page] have s2: "store_case_number heading_script_page = [(''case_number'', PStr ''22TR2'')]"
    by (rule trans)
  have d2: "map_of (rev (detail_items heading_script_page)) ''case_number'' = None" by code_simp
  have r2: "map_of (parse_case_details heading_script_page) ''case_number'' = Some (PStr ''22TR2'')"
    using lookup [of heading_script_page] by (simp add: d2 s2)
  have "(case title_case_number script_page of
              Some t \<Rightarrow> [(''case_number'', PStr t)]
            | None \<Rightarrow>
                (case find_tag script_page ''h2'' [(''class'', ''case-heading'')] of
                   Some case_heading \<Rightarrow>
                     if get_text case_heading \<noteq> []
                     then [(''case_number'', PStr (get_text case_heading))]
                     else script_tier script_page
                 | None \<Rightarrow> script_tier script_page)) = [(''case_number'', PStr ''99TR268487'')]"
    by code_simp
  with tiers [of script_page] have s3: "store_case_number script_page = [(''case_number'', PStr ''99TR268487'')]"
    by (rule trans)
  have d3: "map_of (rev (detail_items script_page)) ''case_number'' = None" by code_simp
  have r3: "map_of (parse_case_details script_page) ''case_number'' = Some (PStr ''99TR268487'')"
    using lookup [of script_page] by (simp add: d3 s3)
  have "(case title_case_number no_number_page of
              Some t \<Rightarrow> [(''case_number'', PStr t)]
            | None \<Rightarrow>
                (case find_tag no_number_page ''h2'' [(''class'', ''case-heading'')] of
                   Some case_heading \<Rightarrow>
                     if get_text case_heading \<noteq> []
                     then [(''case_number'', PStr (get_text case_heading))]
                     else script_tier no_number_page
                 | None \<Rightarrow> script_tier no_number_page)) = []"
    by code_simp
  with tiers [of no_number_page] have s4: "store_case_number no_number_page = []"
    by (rule trans)
  have d4: "map_of (rev (detail_items no_number_page)) ''case_number'' = None" by code_simp
  have r4: "map_of (parse_case_details no_number_page) ''case_number'' = None"
    using lookup [of no_number_page] by (simp add: d4 s4)
  have "(case title_case_number script_cell_page of
              Some t \<Rightarrow> [(''case_number'', PStr t)]
            | None \<Rightarrow>
                (case find_tag script_cell_page ''h2'' [(''class'', ''case-heading'')] of
                   Some case_heading \<Rightarrow>
                     if get_text case_heading \<noteq> []
                     then [(''case_number'', PStr (get_text case_heading))]
                     else script_tier script_cell_page
                 | None \<Rightarrow> script_tier script_cell_page)) = [(''case_number'', PStr ''21TR1'')]"
    by code_simp
  with tiers [of script_cell_page] have s5: "store_case_number script_cell_page = [(''case_number'', PStr ''21TR1'')]"
    by (rule trans)
  have d5: "map_of (rev (detail_items script_cell_page)) ''case_number'' = None" by code_simp
  have r5: "map_of (parse_case_details script_cell_page) ''case_number'' = Some (PStr ''21TR1'')"
    using lookup [of script_cell_page] by (simp add: d5 s5)
  have "(case title_case_number titled_page of
              Some t \<Rightarrow> [(''case_number'', PStr t)]
            | None \<Rightarrow>
                (case find_tag titled_page ''h2'' [(''class'', ''case-heading'')] of
                   Some case_heading \<Rightarrow>
                     if get_text case_heading \<noteq> []
                     then [(''case_number'', PStr (get_text case_heading))]
                     else script_tier titled_page
                 | None \<Rightarrow> script_tier titled_page)) = [(''case_number'', PStr ''21TR1'')]"
    by code_simp
  with tiers [of titled_page] have s6: "store_case_number titled_page = [(''case_number'', PStr ''21TR1'')]"
    by (rule trans)
  have d6: "map_of (rev (detail_items titled_page)) ''case_number'' = Some (PStr ''99ZZ9'')" by code_simp
  have r6: "map_of (parse_case_details titled_page) ''case_number'' = Some (PStr ''99ZZ9'')"
    using lookup [of titled_page] by (simp add: d6 s6)
  have t1: "title_case_number all_tiers_page = Some ''99TR268487''" by code_simp
  from title [of all_tiers_page "''99TR268487''", THEN iffD1, OF t1]
  have m1: "case_pattern_matches ''99TR268487''" by blast
  have t2: "title_case_number heading_script_page \<noteq> Some ''abc123''" by code_simp
  have f2: "find_tag heading_script_page ''title'' [] =
              Some (Tag ''title'' [] [NavigableString ''abc123 - state vs doe''])"
    by code_simp
  have g2: "''abc123'' = strip (takeWhile (\<lambda>x. x \<noteq> CHR ''-'')
              (get_text (Tag ''title'' [] [NavigableString ''abc123 - state vs doe''])))"
    by code_simp
  have m2: "\<not> case_pattern_matches ''abc123''"
  proof
    assume "case_pattern_matches ''abc123''"
    with f2 g2 have "\<exists>title_tag. find_tag heading_script_page ''title'' [] = Some title_tag \<and>
        ''abc123'' = strip (takeWhile (\<lambda>x. x \<noteq> CHR ''-'') (get_text title_tag)) \<and>
        case_pattern_matches ''abc123''"
      by (intro exI conjI)
    from title [of heading_script_page "''abc123''", THEN iffD2, OF this]
    have "title_case_number heading_script_page = Some ''abc123''" .
    with t2 show False by (rule notE)
  qed
  have t3: "title_case_number no_number_page \<noteq> Some ''DOE vs ROE''" by code_simp
  have f3: "find_tag no_number_page ''title'' [] =
              Some (Tag ''title'' [] [NavigableString ''DOE vs ROE''])"
    by code_simp
  have g3: "''DOE vs ROE'' = strip (takeWhile (\<lambda>x. x \<noteq> CHR ''-'')
              (get_text (Tag ''title'' [] [NavigableString ''DOE vs ROE''])))"
    by code_simp
  have m3: "\<not> case_pattern_matches ''DOE vs ROE''"
  proof
    assume "case_pattern_matches ''DOE vs ROE''"
    with f3 g3 have "\<exists>title_tag. find_tag no_number_page ''title'' [] = Some title_tag \<and>
        ''DOE vs ROE'' = strip (takeWhile (\<lambda>x. x \<noteq> CHR ''-'') (get_text title_tag)) \<and>
        case_pattern_matches ''DOE vs ROE''"
      by (intro exI conjI)
    from title [of no_number_page "''DOE vs ROE''", THEN iffD2, OF this]
    have "title_case_number no_number_page = Some ''DOE vs ROE''" .
    with t3 show False by (rule notE)
  qed
  have "script_tier script_page = [(''case_number'', PStr ''99TR268487'')]" by code_simp
  from script [of script_page "''99TR268487''", THEN iffD1, OF this]
  obtain before sc after s where
    "find_all script_page [''script''] [] = before @ sc # after \<and>
     node_string sc = Some s \<and> leftmost_quoted ''var caseNumber = '' ''99TR268487'' s \<and>
     (\<forall>x \<in> set before. \<forall>s' g'. node_string x = Some s' \<longrightarrow>
        \<not> leftmost_quoted ''var caseNumber = '' g' s')"
    by (elim exE)
  then have m4: "\<exists>s. leftmost_quoted ''var caseNumber = '' ''99TR268487'' s"
    by (intro exI [of _ s]) (elim conjE)
  from r1 r2 r3 r4 r5 r6 m1 m2 m3 m4 show ?thesis by (intro conjI)
qed

section \<open>Docket grammar\<close>

text \<open>
  C9. The docket fragment and the case details page are read by the same grammar: on
  every table the entries that \<open>get_case_dockets\<close> builds are those that the docket block
  of \<open>parse_case_details\<close> builds, and on every document both look for the same table,
  the fragment returning its entries and the page storing them when there are any.
\<close>

theorem docket_grammar_shared:
  "fragment_docket_entries docket_table = page_docket_entries docket_table \<and>
   (case find_tag sp ''table'' [(''id'', ''gridDockets'')] of
      None \<Rightarrow> docket_history (parse_case_dockets t sp) = [] \<and> docket_block sp cd = cd
    | Some tb \<Rightarrow>
        docket_history (parse_case_dockets t sp) = page_docket_entries tb \<and>
        docket_block sp cd =
          (if page_docket_entries tb \<noteq> []
           then AList.update ''docket_history'' (PList (map str_dict (page_docket_entries tb))) cd
           else cd))"
  by (simp add: fragment_docket_entries_eq parse_case_dockets_def docket_block_def Let_def
        split: option.splits)

section \<open>Summary fragment\<close>

text \<open>
  C10. The labels and values of a definition list are paired by position over the whole
  list: pair \<open>i\<close> is the \<open>i\<close>-th \<open>dt\<close> with the \<open>i\<close>-th \<open>dd\<close>, and there are as many
  pairs as the shorter of the two sequences has elements, the rest being dropped.
\<close>

theorem dl_pairs_positional:
  "length (dl_pairs dl) =
     min (length (find_all dl [''dt''] [])) (length (find_all dl [''dd''] [])) \<and>
   (\<forall>i < length (dl_pairs dl).
      dl_pairs dl ! i = (find_all dl [''dt''] [] ! i, find_all dl [''dd''] [] ! i)) \<and>
   summary_lists sp cd =
     dict_update cd
       (concat (map (\<lambda>dl. concat (map dl_item_writes (dl_pairs dl)))
                  (find_all sp [''dl''] [(''class'', ''dl-horizontal'')])))"
  by (simp add: dl_pairs_def summary_lists_writes summary_items_def)

theorem dl_pairs_positional_witness:
  "length (dl_pairs example_dl) = 1 \<and>
   dl_pairs example_dl ! 0 =
     (Tag ''dt'' [] [NavigableString ''Judge:''], Tag ''dd'' [] [NavigableString ''OPEN''])"
proof -
  have dts: "find_all example_dl [''dt''] [] =
      [Tag ''dt'' [] [NavigableString ''Judge:''], Tag ''dt'' [] [NavigableString ''Status:'']]"
    by code_simp
  have dds: "find_all example_dl [''dd''] [] = [Tag ''dd'' [] [NavigableString ''OPEN'']]"
    by code_simp
  from dl_pairs_positional [of example_dl] have
    len: "length (dl_pairs example_dl) =
            min (length (find_all example_dl [''dt''] [])) (length (find_all example_dl [''dd''] []))"
    and nth: "\<forall>i < length (dl_pairs example_dl).
            dl_pairs example_dl ! i =
              (find_all example_dl [''dt''] [] ! i, find_all example_dl [''dd''] [] ! i)"
    by blast+
  from len have l1: "length (dl_pairs example_dl) = 1" by (simp add: dts dds)
  with nth have "dl_pairs example_dl ! 0 =
      (find_all example_dl [''dt''] [] ! 0, find_all example_dl [''dd''] [] ! 0)"
    by simp
  with l1 show ?thesis by (simp add: dts dds)
qed

section \<open>Token bootstrap\<close>

lemma truthy_head_None: "truthy_head x = None \<longleftrightarrow> \<not> attr_truthy x"
  by (cases x rule: truthy_head.cases) simp_all

lemma csrf_cookie_nonempty: "is_csrf_cookie kv \<Longrightarrow> fst kv \<noteq> []"
  by (auto simp: is_csrf_cookie_def)

lemma scan_cookies_fresh:
  assumes "\<not> truthy (csrf_cookie_name c)"
  shows "truthy (csrf_cookie_name (scan_cookies c)) \<longleftrightarrow> (\<exists>kv \<in> set (cookies c). is_csrf_cookie kv)"
proof (cases "List.find is_csrf_cookie (cookies c)")
  case None
  then have "scan_cookies c = c" by (simp add: scan_cookies_def)
  moreover from None have "\<not> (\<exists>kv \<in> set (cookies c). is_csrf_cookie kv)"
    by (auto simp: find_None_iff)
  ultimately show ?thesis using assms by simp
next
  case (Some kv)
  then have "is_csrf_cookie kv \<and> kv \<in> set (cookies c)"
    by (auto simp: find_Some_iff)
  with Some show ?thesis
    by (auto simp: scan_cookies_def dest: csrf_cookie_nonempty)
qed

text \<open>
  C5, as stated, fails: the cookie is checked first, so a landing page that has neither
  the cookie nor the hidden input fails with MissingCsrfCookie, not with
  MissingCsrfToken, although the hidden input is absent.
\<close>

theorem missing_input_reports_cookie:
  "csrf_input (example_world [] [])
     (fst (session_request (example_world [] []) (search_page_request fresh_client) fresh_client))
     = None \<and>
   fst (get_search_page (example_world [] []) fresh_client) = Inl MissingCsrfCookie \<and>
   fst (get_search_page (example_world [] []) fresh_client) \<noteq> Inl MissingCsrfToken"
  by code_simp

text \<open>
  C5, amended. On a session whose cookie name is not yet set, and when the landing page
  is fetched without an HTTP error: the bootstrap fails with MissingCsrfCookie exactly
  when no cookie of the jar has a name with the prefix; it fails with MissingCsrfToken
  exactly when some cookie has the prefix and the hidden input is absent or its value is
  empty; and when it succeeds the session holds the name of the first such cookie and
  the value of the input.
\<close>

theorem bootstrap_outcomes:
  assumes "\<not> truthy (csrf_cookie_name c)"
    and "session_request w (search_page_request c) c = (resp, c1)"
    and "resp_ok resp"
  shows "(fst (get_search_page w c) = Inl MissingCsrfCookie \<longleftrightarrow>
            \<not> (\<exists>kv \<in> set (cookies c1). is_csrf_cookie kv)) \<and>
         (fst (get_search_page w c) = Inl MissingCsrfToken \<longleftrightarrow>
            (\<exists>kv \<in> set (cookies c1). is_csrf_cookie kv) \<and>
            (case csrf_input w resp of
               None \<Rightarrow> True
             | Some inp \<Rightarrow> \<not> attr_truthy (get_attr inp ''value''))) \<and>
         (fst (get_search_page w c) = Inr () \<longrightarrow>
            (\<exists>kv inp v. List.find is_csrf_cookie (cookies c1) = Some kv \<and>
               csrf_input w resp = Some inp \<and>
               truthy_head (get_attr inp ''value'') = Some v \<and>
               csrf_cookie_name (snd (get_search_page w c)) = Some (fst kv) \<and>
               csrf_token_body (snd (get_search_page w c)) = Some v))"
proof -
  from assms(2) have "csrf_cookie_name c1 = csrf_cookie_name c"
    by (auto simp: session_request_def split: prod.splits)
  with assms(1) have fresh: "\<not> truthy (csrf_cookie_name c1)" by simp
  note scan = scan_cookies_fresh [OF fresh]
  show ?thesis
  proof (cases "List.find is_csrf_cookie (cookies c1)")
    case None
    then have no: "\<not> (\<exists>kv \<in> set (cookies c1). is_csrf_cookie kv)"
      by (auto simp: find_None_iff)
    with scan have "\<not> truthy (csrf_cookie_name (scan_cookies c1))" by simp
    with assms(2,3) no show ?thesis
      by (simp add: get_search_page_def Let_def)
  next
    case (Some kv)
    then have yes: "\<exists>kv \<in> set (cookies c1). is_csrf_cookie kv"
      by (auto simp: find_Some_iff)
    with scan have t: "truthy (csrf_cookie_name (scan_cookies c1))" by simp
    have n: "csrf_cookie_name (scan_cookies c1) = Some (fst kv)"
      using Some by (simp add: scan_cookies_def)
    from assms(2,3) t yes n Some show ?thesis
      by (auto simp: get_search_page_def Let_def truthy_head_None [symmetric]
            split: option.splits)
  qed
qed

theorem bootstrap_outcomes_witness:
  "fst (get_search_page (example_world ''token'' [(''__RequestVerificationToken_X9'', ''v1'')])
          fresh_client) = Inr () \<and>
   csrf_cookie_name
     (snd (get_search_page (example_world ''token'' [(''__RequestVerificationToken_X9'', ''v1'')])
          fresh_client)) = Some ''__RequestVerificationToken_X9'' \<and>
   csrf_token_body
     (snd (get_search_page (example_world ''token'' [(''__RequestVerificationToken_X9'', ''v1'')])
          fresh_client)) = Some ''tok1''"
proof -
  let ?w = "example_world ''token'' [(''__RequestVerificationToken_X9'', ''v1'')]"
  let ?r = "fst (session_request ?w (search_page_request fresh_client) fresh_client)"
  let ?c1 = "snd (session_request ?w (search_page_request fresh_client) fresh_client)"
  have a: "\<not> truthy (csrf_cookie_name fresh_client)" by code_simp
  have b: "session_request ?w (search_page_request fresh_client) fresh_client = (?r, ?c1)"
    by simp
  have c: "resp_ok ?r" by code_simp
  have ok: "fst (get_search_page ?w fresh_client) = Inr ()" by code_simp
  have f: "List.find is_csrf_cookie (cookies ?c1) = Some (''__RequestVerificationToken_X9'', ''v1'')"
    by code_simp
  have i: "csrf_input ?w ?r = Some (Tag ''input'' [(''type'', AStr ''hidden''),
       (''name'', AStr ''__RequestVerificationToken''), (''value'', AStr ''tok1'')] [])"
    by code_simp
  from bootstrap_outcomes [OF a b c] ok obtain kv inp v where
    "List.find is_csrf_cookie (cookies ?c1) = Some kv" "csrf_input ?w ?r = Some inp"
    "truthy_head (get_attr inp ''value'') = Some v"
    "csrf_cookie_name (snd (get_search_page ?w fresh_client)) = Some (fst kv)"
    "csrf_token_body (snd (get_search_page ?w fresh_client)) = Some v"
    by blast
  with f i ok show ?thesis by simp
qed

section \<open>Charges\<close>












lemma get_case_summary_result:
  "get_case_summary w case_id digest c = (Inr sm, c') \<Longrightarrow>
     summary_success sm \<and> (\<exists>sp. summary_data sm = parse_case_summary sp)"
  by (auto simp: get_case_summary_def split: prod.splits if_splits)

lemma get_case_dockets_failure:
  "get_case_dockets w case_id digest c = (Inr dr, c') \<Longrightarrow>
     \<not> dockets_success dr \<Longrightarrow> docket_history dr = []"
  by (auto simp: get_case_dockets_def parse_case_dockets_def
        split: prod.splits if_splits option.splits)

lemma merge_fragments_result:
  assumes "merge_fragments w case_id digest cd c1 = (Inr rec, c')"
  shows "\<exists>sp dr. get_case_dockets w case_id digest (snd (get_case_summary w case_id digest c1))
                   = (Inr dr, c') \<and>
           rec = AList.update ''docket_history'' (PList (map str_dict (docket_history dr)))
                   (dict_update cd (parse_case_summary sp))"
proof -
  obtain r1 c2 where s: "get_case_summary w case_id digest c1 = (r1, c2)"
    by (cases "get_case_summary w case_id digest c1")
  with assms obtain sm where sm: "r1 = Inr sm"
    by (cases r1) (auto simp: merge_fragments_def)
  from s sm obtain sp where sp: "summary_success sm" "summary_data sm = parse_case_summary sp"
    using get_case_summary_result by blast
  obtain r2 c3 where d: "get_case_dockets w case_id digest c2 = (r2, c3)"
    by (cases "get_case_dockets w case_id digest c2")
  with assms s sm obtain dr where dr: "r2 = Inr dr"
    by (cases r2) (auto simp: merge_fragments_def Let_def)
  from assms s sm sp d dr have c3: "c3 = c'"
    and rec: "rec = (if dockets_success dr
                     then AList.update ''docket_history''
                            (PList (map str_dict (docket_history dr)))
                            (dict_update cd (parse_case_summary sp))
                     else AList.update ''docket_history'' (PList [])
                            (dict_update cd (parse_case_summary sp)))"
    by (auto simp: merge_fragments_def Let_def)
  from d dr have "\<not> dockets_success dr \<Longrightarrow> docket_history dr = []"
    by (auto dest: get_case_dockets_failure)
  with rec have "rec = AList.update ''docket_history'' (PList (map str_dict (docket_history dr)))
                   (dict_update cd (parse_case_summary sp))"
    by (cases "dockets_success dr") simp_all
  with s d dr c3 show ?thesis by auto
qed

lemma details_without_fragments:
  assumes "session_request w (GET (Url case_url) []) c = (resp, c1)" and "resp_ok resp"
    and "search_cid (resp_text resp) = None \<or> search_caseDigest (resp_text resp) = None"
  shows "get_case_details_with_dockets w case_url c =
           (Inr (AList.update ''docket_history'' (PList [])
                   (AList.update ''url'' (PStr (resp_url resp))
                      (parse_case_details (BeautifulSoup w (resp_text resp))))), c1)"
  using assms
  by (auto simp: get_case_details_with_dockets_def Let_def split: option.splits)

lemma details_with_fragments:
  assumes "session_request w (GET (Url case_url) []) c = (resp, c1)" and "resp_ok resp"
    and "search_cid (resp_text resp) = Some case_id"
    and "search_caseDigest (resp_text resp) = Some digest"
  shows "get_case_details_with_dockets w case_url c =
           merge_fragments w case_id digest
             (AList.update ''url'' (PStr (resp_url resp))
                (parse_case_details (BeautifulSoup w (resp_text resp)))) c1"
  using assms
  by (simp add: get_case_details_with_dockets_def Let_def)




section \<open>Case details with dockets\<close>

text \<open>
  C2, as stated, fails in one point: the record does not keep everything else the
  extractor produced, since the key \<open>url\<close> is set to the address of the response after
  the page is parsed; a detail row labelled \<open>URL\<close> loses its value.
\<close>

theorem extractor_url_replaced:
  "search_cid ''titled'' = None \<and>
   parse_case_details (BeautifulSoup (example_world ''titled'' []) ''titled'') =
     [(''case_number'', PStr ''99ZZ9''), (''url'', PStr ''about:blank'')] \<and>
   fst (get_case_details_with_dockets (example_world ''titled'' []) example_url cached_client) =
     Inr [(''case_number'', PStr ''99ZZ9''), (''url'', PStr example_url),
          (''docket_history'', PList [])] \<and>
   example_url \<noteq> ''about:blank''"
  by code_simp

text \<open>
  C2, amended. Let the case details page be fetched without an HTTP error. If the case
  id or the digest is not found in its text, no fragment is requested, the call returns
  (it is not an error), and the record is the extractor's with \<open>url\<close> set to the address
  of the response and \<open>docket_history\<close> set to the empty sequence, every other key as
  the extractor left it. If both are found and the call returns a record, its
  \<open>docket_history\<close> is that of the result of \<open>get_case_dockets\<close>, which is empty when
  that result reports failure. The docket history of the page itself is never kept.
\<close>

theorem details_docket_history:
  assumes "session_request w (GET (Url case_url) []) c = (resp, c1)" and "resp_ok resp"
  shows "(search_cid (resp_text resp) = None \<or> search_caseDigest (resp_text resp) = None \<longrightarrow>
            (\<exists>rec. get_case_details_with_dockets w case_url c = (Inr rec, c1) \<and>
               requests_sent c1 = requests_sent c @ [GET (Url case_url) []] \<and>
               map_of rec ''docket_history'' = Some (PList []) \<and>
               map_of rec ''url'' = Some (PStr (resp_url resp)) \<and>
               (\<forall>k. k \<noteq> ''docket_history'' \<and> k \<noteq> ''url'' \<longrightarrow>
                  map_of rec k =
                    map_of (parse_case_details (BeautifulSoup w (resp_text resp))) k))) \<and>
         (\<forall>case_id digest rec c'.
            search_cid (resp_text resp) = Some case_id \<and>
            search_caseDigest (resp_text resp) = Some digest \<and>
            get_case_details_with_dockets w case_url c = (Inr rec, c') \<longrightarrow>
            (\<exists>dockets.
               get_case_dockets w case_id digest (snd (get_case_summary w case_id digest c1))
                 = (Inr dockets, c') \<and>
               map_of rec ''docket_history'' =
                 Some (PList (map str_dict (docket_history dockets))) \<and>
               (\<not> dockets_success dockets \<longrightarrow> docket_history dockets = [])))"
proof (intro conjI impI allI)
  assume none: "search_cid (resp_text resp) = None \<or> search_caseDigest (resp_text resp) = None"
  from assms(1) have "requests_sent c1 = requests_sent c @ [GET (Url case_url) []]"
    by (auto dest: session_request_fields)
  with details_without_fragments [OF assms none]
  show "\<exists>rec. get_case_details_with_dockets w case_url c = (Inr rec, c1) \<and>
               requests_sent c1 = requests_sent c @ [GET (Url case_url) []] \<and>
               map_of rec ''docket_history'' = Some (PList []) \<and>
               map_of rec ''url'' = Some (PStr (resp_url resp)) \<and>
               (\<forall>k. k \<noteq> ''docket_history'' \<and> k \<noteq> ''url'' \<longrightarrow>
                  map_of rec k =
                    map_of (parse_case_details (BeautifulSoup w (resp_text resp))) k)"
    by (simp add: update_conv')
next
  fix case_id digest rec c'
  assume a: "search_cid (resp_text resp) = Some case_id \<and>
            search_caseDigest (resp_text resp) = Some digest \<and>
            get_case_details_with_dockets w case_url c = (Inr rec, c')"
  let ?cd = "AList.update ''url'' (PStr (resp_url resp))
               (parse_case_details (BeautifulSoup w (resp_text resp)))"
  from a details_with_fragments [OF assms, of case_id digest]
  have "merge_fragments w case_id digest ?cd c1 = (Inr rec, c')" by simp
  from merge_fragments_result [OF this] obtain sp' and dr :: dockets_result where
    d: "get_case_dockets w case_id digest (snd (get_case_summary w case_id digest c1)) = (Inr dr, c')"
    and r: "rec = AList.update ''docket_history'' (PList (map str_dict (docket_history dr)))
               (dict_update ?cd (parse_case_summary sp'))"
    by auto
  from r have "map_of rec ''docket_history'' = Some (PList (map str_dict (docket_history dr)))"
    by (simp add: update_conv')
  moreover from d have "\<not> dockets_success dr \<longrightarrow> docket_history dr = []"
    by (auto dest: get_case_dockets_failure)
  ultimately show "\<exists>dockets.
               get_case_dockets w case_id digest (snd (get_case_summary w case_id digest c1))
                 = (Inr dockets, c') \<and>
               map_of rec ''docket_history'' =
                 Some (PList (map str_dict (docket_history dockets))) \<and>
               (\<not> dockets_success dockets \<longrightarrow> docket_history dockets = [])"
    using d by blast
qed

theorem details_docket_history_witness:
  "(\<exists>rec c1. get_case_details_with_dockets (example_world ''titled'' []) example_url cached_client
               = (Inr rec, c1) \<and>
      map_of rec ''docket_history'' = Some (PList []) \<and>
      map_of rec ''case_number'' = Some (PStr ''99ZZ9'')) \<and>
   (\<exists>rec c' (dockets :: dockets_result).
      get_case_details_with_dockets (example_world scripted_text []) example_url cached_client
        = (Inr rec, c') \<and>
      map_of rec ''docket_history'' = Some (PList (map str_dict (docket_history dockets))) \<and>
      docket_history dockets =
        [[(''column_0'', []), (''column_1'', ''ARRAIGNMENT''), (''id'', ''77'')]])"
proof -
  define w1 where "w1 = example_world ''titled'' []"
  define w2 where "w2 = example_world scripted_text []"
  define r1 where "r1 = fst (session_request w1 (GET (Url example_url) []) cached_client)"
  define c1 where "c1 = snd (session_request w1 (GET (Url example_url) []) cached_client)"
  define r2 where "r2 = fst (session_request w2 (GET (Url example_url) []) cached_client)"
  define c2 where "c2 = snd (session_request w2 (GET (Url example_url) []) cached_client)"
  have s1: "session_request w1 (GET (Url example_url) []) cached_client = (r1, c1)"
    by (simp add: r1_def c1_def)
  have ok1: "resp_ok r1" unfolding r1_def w1_def by code_simp
  have none: "search_cid (resp_text r1) = None" unfolding r1_def w1_def by code_simp
  have cn: "map_of (parse_case_details (BeautifulSoup w1 (resp_text r1))) ''case_number''
              = Some (PStr ''99ZZ9'')"
    unfolding r1_def w1_def by code_simp
  from details_docket_history [OF s1 ok1]
  have "search_cid (resp_text r1) = None \<or> search_caseDigest (resp_text r1) = None \<longrightarrow>
            (\<exists>rec. get_case_details_with_dockets w1 example_url cached_client = (Inr rec, c1) \<and>
               requests_sent c1 = requests_sent cached_client @ [GET (Url example_url) []] \<and>
               map_of rec ''docket_history'' = Some (PList []) \<and>
               map_of rec ''url'' = Some (PStr (resp_url r1)) \<and>
               (\<forall>k. k \<noteq> ''docket_history'' \<and> k \<noteq> ''url'' \<longrightarrow>
                  map_of rec k = map_of (parse_case_details (BeautifulSoup w1 (resp_text r1))) k))"
    by (rule conjunct1)
  with none obtain rec1 where
    g1: "get_case_details_with_dockets w1 example_url cached_client = (Inr rec1, c1)"
    and h1: "map_of rec1 ''docket_history'' = Some (PList [])"
    and k1: "\<forall>k. k \<noteq> ''docket_history'' \<and> k \<noteq> ''url'' \<longrightarrow>
               map_of rec1 k = map_of (parse_case_details (BeautifulSoup w1 (resp_text r1))) k"
    by blast
  from k1 have "map_of rec1 ''case_number'' =
      map_of (parse_case_details (BeautifulSoup w1 (resp_text r1))) ''case_number''"
    by simp
  with cn have n1: "map_of rec1 ''case_number'' = Some (PStr ''99ZZ9'')" by simp
  have s2: "session_request w2 (GET (Url example_url) []) cached_client = (r2, c2)"
    by (simp add: r2_def c2_def)
  have ok2: "resp_ok r2" unfolding r2_def w2_def by code_simp
  have cid: "search_cid (resp_text r2) = Some ''257''" unfolding r2_def w2_def by code_simp
  have dg: "search_caseDigest (resp_text r2) = Some ''F7EK''" unfolding r2_def w2_def by code_simp
  have "case fst (get_case_details_with_dockets w2 example_url cached_client) of
          Inl e \<Rightarrow> False | Inr rec \<Rightarrow> True"
    unfolding w2_def by code_simp
  then obtain rec2 c' where
    g2: "get_case_details_with_dockets w2 example_url cached_client = (Inr rec2, c')"
    by (cases "get_case_details_with_dockets w2 example_url cached_client";
        cases "fst (get_case_details_with_dockets w2 example_url cached_client)") auto
  from details_docket_history [OF s2 ok2]
  have "\<forall>case_id digest rec c'.
            search_cid (resp_text r2) = Some case_id \<and>
            search_caseDigest (resp_text r2) = Some digest \<and>
            get_case_details_with_dockets w2 example_url cached_client = (Inr rec, c') \<longrightarrow>
            (\<exists>dockets.
               get_case_dockets w2 case_id digest (snd (get_case_summary w2 case_id digest c2))
                 = (Inr dockets, c') \<and>
               map_of rec ''docket_history'' =
                 Some (PList (map str_dict (docket_history dockets))) \<and>
               (\<not> dockets_success dockets \<longrightarrow> docket_history dockets = []))"
    by (rule conjunct2)
  with cid dg g2 obtain dockets :: dockets_result where
    d: "get_case_dockets w2 ''257'' ''F7EK'' (snd (get_case_summary w2 ''257'' ''F7EK'' c2))
          = (Inr dockets, c')"
    and h2: "map_of rec2 ''docket_history'' = Some (PList (map str_dict (docket_history dockets)))"
    by blast
  have "case fst (get_case_dockets w2 ''257'' ''F7EK''
                    (snd (get_case_summary w2 ''257'' ''F7EK'' c2))) of
          Inl e \<Rightarrow> False
        | Inr dr \<Rightarrow> docket_history dr =
            [[(''column_0'', []), (''column_1'', ''ARRAIGNMENT''), (''id'', ''77'')]]"
    unfolding c2_def w2_def by code_simp
  with d have dh: "docket_history dockets =
      [[(''column_0'', []), (''column_1'', ''ARRAIGNMENT''), (''id'', ''77'')]]"
    by simp
  from g1 h1 n1 have A: "\<exists>rec c1. get_case_details_with_dockets w1 example_url cached_client
               = (Inr rec, c1) \<and>
      map_of rec ''docket_history'' = Some (PList []) \<and>
      map_of rec ''case_number'' = Some (PStr ''99ZZ9'')"
    by blast
  from g2 h2 dh have B: "\<exists>rec c' (dockets :: dockets_result).
      get_case_details_with_dockets w2 example_url cached_client = (Inr rec, c') \<and>
      map_of rec ''docket_history'' = Some (PList (map str_dict (docket_history dockets))) \<and>
      docket_history dockets =
        [[(''column_0'', []), (''column_1'', ''ARRAIGNMENT''), (''id'', ''77'')]]"
    by blast
  from A B show ?thesis unfolding w1_def w2_def by (rule conjI)
qed

end
